theory Spec2Isabelle
  imports Main "HOL-Library.Word" "HOL-Library.AList"
begin

unbundle bit_operations_syntax

section \<open>HTTP Public Key Pinning store of libwget (hpkp.c)\<close>

text \<open>
  A shallow embedding of \<^verbatim>\<open>src/libwget/hpkp.c\<close>. Every C function of the file that
  the properties below depend on is a HOL function of the same name; a leading
  \<^verbatim>\<open>__\<close> of a C name is written \<^verbatim>\<open>uu_\<close>, since an Isabelle name starts with a letter.

  Conventions of the embedding:
  \<^item> \<^verbatim>\<open>time_t\<close> is the 64-bit signed \<^verbatim>\<open>long\<close> of an LP64 platform. The file itself
    fixes that size: it prints \<^verbatim>\<open>created\<close> and \<^verbatim>\<open>max_age\<close> with \<^verbatim>\<open>%lu\<close> and parses them
    through an \<^verbatim>\<open>unsigned long *\<close>. Comparisons are signed (\<open><s\<close>); addition is the
    two's-complement addition the compiled code performs.
  \<^item> A pin is the byte buffer an entry of the \<^verbatim>\<open>pins\<close> vector points to.
  \<^item> The generic containers, the base64 codec, the IRI parser, the line reader and the
    clock are not part of hpkp.c. The containers are modelled by lists, the codec and the
    IRI parser are parameters, the clock is an argument.
  \<^item> Memory release is recorded in a ghost log (\<open>released\<close>), so that "the candidate is
    destroyed" is a statement about the model.
  \<^item> A store through a pointer that writes more bytes than the object behind the pointer
    holds is undefined behaviour in C. The model does not pick one of the possible
    results: the parser that makes such a store has the outcome \<open>Overrun\<close>, and the
    function that called it has the outcome \<open>Undefined_behaviour\<close>.
\<close>

subsection \<open>Data model\<close>

type_synonym byte = "8 word"
type_synonym pin = "byte list"
type_synonym time_t = "64 word"

text \<open>\<^verbatim>\<open>struct __wget_hpkp_st\<close>.\<close>

record hpkp =
  host :: string
  created :: time_t
  max_age :: time_t
  include_subdomains :: "8 word"
  pins :: "pin list"

text \<open>
  \<^verbatim>\<open>struct __wget_hpkp_db_st\<close>. \<open>entries\<close> is the hash map from host names to entries,
  as an association list whose order stands for the traversal order of the map. The mutex
  is not modelled: the embedding is sequential. \<open>released\<close> is the ghost log of every
  entry handed to \<^verbatim>\<open>wget_hpkp_free\<close> or \<^verbatim>\<open>__wget_hpkp_free\<close>, latest first.
\<close>

record hpkp_db =
  entries :: "(string \<times> hpkp) list"
  released :: "hpkp list"

text \<open>
  Modelled from the spec: the outcome constants \<^verbatim>\<open>WGET_HPKP_*\<close> are declared in wget.h,
  which is not among the sources. The spec names the outcomes of admission (OK,
  ENTRY_EXISTS, WAS_DELETED, ENTRY_EXPIRED, NOT_ENOUGH_PINS, ERROR) and the distinct
  "open failed" error. \<open>status_code\<close> is the \<^verbatim>\<open>int\<close> of an outcome: hpkp.c shows that
  \<^verbatim>\<open>WGET_HPKP_OK\<close> is 0 (the last line of \<^verbatim>\<open>wget_hpkp_db_load\<close>) and, in the comment above
  \<^verbatim>\<open>__wget_hpkp_db_add\<close>, that every other value is negative; the theorems use no more
  than that of the numbers chosen here.
\<close>

datatype hpkp_status =
    WGET_HPKP_OK
  | WGET_HPKP_ERROR
  | WGET_HPKP_ENTRY_EXPIRED
  | WGET_HPKP_WAS_DELETED
  | WGET_HPKP_NOT_ENOUGH_PINS
  | WGET_HPKP_ENTRY_EXISTS
  | WGET_HPKP_ERROR_FILE_OPEN

fun status_code :: "hpkp_status \<Rightarrow> int" where
  "status_code WGET_HPKP_OK = 0"
| "status_code WGET_HPKP_ERROR = - 1"
| "status_code WGET_HPKP_ENTRY_EXPIRED = - 2"
| "status_code WGET_HPKP_WAS_DELETED = - 3"
| "status_code WGET_HPKP_NOT_ENOUGH_PINS = - 4"
| "status_code WGET_HPKP_ENTRY_EXISTS = - 5"
| "status_code WGET_HPKP_ERROR_FILE_OPEN = - 6"

subsection \<open>Containers\<close>

text \<open>
  Modelled from the spec: the dynamic array (\<^verbatim>\<open>wget_vector_*\<close>) and the hash map
  (\<^verbatim>\<open>wget_hashmap_*\<close>) are generic containers outside hpkp.c, "consumed as mapping/set
  primitives with custom hash, equality, and destructor callbacks". A vector is a list;
  \<^verbatim>\<open>wget_vector_contains\<close> searches it with the comparison callback given at creation;
  \<^verbatim>\<open>wget_vector_browse\<close> calls \<open>browse ctx elem\<close> on each element in order and stops
  at the first result other than 0, which it returns (hpkp.c relies on the argument order
  in \<^verbatim>\<open>__vector_browse_cb(void *ctx, void *elem)\<close> and on the early exit in
  \<^verbatim>\<open>__wget_hpkp_compare_spkis\<close>). The callback may update the context.
\<close>

definition wget_vector_contains :: "('a \<Rightarrow> 'a \<Rightarrow> int) \<Rightarrow> 'a list \<Rightarrow> 'a \<Rightarrow> bool" where
  "wget_vector_contains cmp v elem = list_ex (\<lambda>x. cmp elem x = 0) v"

fun wget_vector_browse :: "'a list \<Rightarrow> ('c \<Rightarrow> 'a \<Rightarrow> int \<times> 'c) \<Rightarrow> 'c \<Rightarrow> int \<times> 'c" where
  "wget_vector_browse [] browse ctx = (0, ctx)"
| "wget_vector_browse (x # xs) browse ctx =
     (case browse ctx x of (r, ctx') \<Rightarrow>
        if r \<noteq> 0 then (r, ctx') else wget_vector_browse xs browse ctx')"

text \<open>
  The hash map is keyed by exact string equality (\<^verbatim>\<open>__cmp_hpkp_cb\<close> is \<^verbatim>\<open>strcmp\<close>), which
  is the equality of the keys of the association list.
  \<^verbatim>\<open>wget_hpkp_db_init\<close> installs \<^verbatim>\<open>wget_hpkp_free\<close> as the value destructor, so a value
  that the map replaces or removes is released.
\<close>

definition wget_hashmap_get :: "hpkp_db \<Rightarrow> string \<Rightarrow> hpkp option" where
  "wget_hashmap_get db key = map_of (entries db) key"

definition wget_hashmap_put_noalloc :: "hpkp_db \<Rightarrow> string \<Rightarrow> hpkp \<Rightarrow> hpkp_db" where
  "wget_hashmap_put_noalloc db key v =
     db\<lparr>entries := AList.update key v (entries db),
        released := (case map_of (entries db) key of
                       None \<Rightarrow> released db
                     | Some old \<Rightarrow> old # released db)\<rparr>"

definition wget_hashmap_remove :: "hpkp_db \<Rightarrow> string \<Rightarrow> hpkp_db" where
  "wget_hashmap_remove db key =
     db\<lparr>entries := AList.delete key (entries db),
        released := (case map_of (entries db) key of
                       None \<Rightarrow> released db
                     | Some old \<Rightarrow> old # released db)\<rparr>"

definition wget_hashmap_size :: "hpkp_db \<Rightarrow> nat" where
  "wget_hashmap_size db = length (entries db)"

definition wget_hpkp_db_init :: hpkp_db where
  "wget_hpkp_db_init = \<lparr>entries = [], released = []\<rparr>"

text \<open>
  The invariant of a store built by this file: every entry is stored under its own host
  (the key handed to the map is always \<^verbatim>\<open>hpkp_new->host\<close>) and no key occurs twice.
\<close>

definition keyed_by_host :: "hpkp_db \<Rightarrow> bool" where
  "keyed_by_host db =
     (distinct (map fst (entries db)) \<and> list_all (\<lambda>(k, e). host e = k) (entries db))"

subsection \<open>Pins\<close>

text \<open>
  \<^verbatim>\<open>__cmp_pins_cb\<close>: the loop \<^verbatim>\<open>for (i = 0; i < 32 && all_equal; i++)\<close>. \<open>cmp_pins_loop n i\<close>
  is the value of \<^verbatim>\<open>all_equal\<close> after the loop, started at index \<open>i\<close> with \<open>n\<close> indices
  left. The source reads 32 bytes of both buffers whatever their size; on a buffer shorter
  than 32 bytes that read is outside the buffer, where the model (\<open>p ! i\<close> beyond the
  length) fixes no value either.
\<close>

fun cmp_pins_loop :: "nat \<Rightarrow> nat \<Rightarrow> pin \<Rightarrow> pin \<Rightarrow> bool" where
  "cmp_pins_loop 0 i p1 p2 = True"
| "cmp_pins_loop (Suc n) i p1 p2 =
     (if p1 ! i \<noteq> p2 ! i then False else cmp_pins_loop n (Suc i) p1 p2)"

definition cmp_pins_cb :: "pin \<Rightarrow> pin \<Rightarrow> int" where
  "cmp_pins_cb p1 p2 = (if cmp_pins_loop 32 0 p1 p2 then 0 else 1)"

text \<open>\<^verbatim>\<open>__wget_hpkp_free\<close>, called by the owner of a candidate: the ghost log grows.\<close>

definition uu_wget_hpkp_free :: "hpkp \<Rightarrow> hpkp_db \<Rightarrow> hpkp_db" where
  "uu_wget_hpkp_free h db = db\<lparr>released := h # released db\<rparr>"

text \<open>
  \<^verbatim>\<open>wget_hpkp_new\<close>. The \<^verbatim>\<open>int include_subdomains\<close> argument is stored in a \<^verbatim>\<open>char\<close>; both
  callers pass a value that fits.
\<close>

definition wget_hpkp_new :: "string \<Rightarrow> time_t \<Rightarrow> time_t \<Rightarrow> 8 word \<Rightarrow> hpkp" where
  "wget_hpkp_new h c m i =
     \<lparr>host = h, created = c, max_age = m, include_subdomains = i, pins = []\<rparr>"

text \<open>
  \<^verbatim>\<open>__wget_hpkp_contains_spki_cb\<close> and \<^verbatim>\<open>__wget_hpkp_compare_spkis\<close>. The browse runs over
  the pins of the first argument, with the second argument as context: the result is
  non-zero exactly when some pin of \<open>hpkp1\<close> is not among the pins of \<open>hpkp2\<close>.
\<close>

definition uu_wget_hpkp_contains_spki_cb :: "hpkp \<Rightarrow> pin \<Rightarrow> int \<times> hpkp" where
  "uu_wget_hpkp_contains_spki_cb h spki =
     ((if wget_vector_contains cmp_pins_cb (pins h) spki then 0 else 1), h)"

definition uu_wget_hpkp_compare_spkis :: "hpkp \<Rightarrow> hpkp \<Rightarrow> int" where
  "uu_wget_hpkp_compare_spkis hpkp1 hpkp2 =
     fst (wget_vector_browse (pins hpkp1) uu_wget_hpkp_contains_spki_cb hpkp2)"

subsection \<open>Admission\<close>

text \<open>
  Both \<^verbatim>\<open>__wget_hpkp_db_add\<close> and \<^verbatim>\<open>wget_hpkp_db_add\<close> read the clock and replace the
  failure value \<^verbatim>\<open>-1\<close> of \<^verbatim>\<open>time(NULL)\<close> by 0.
\<close>

definition curtime_of :: "time_t \<Rightarrow> time_t" where
  "curtime_of t = (if t = - 1 then 0 else t)"

text \<open>The expiry test of \<^verbatim>\<open>__wget_hpkp_db_add\<close>, on the adjusted clock value.\<close>

definition is_expired :: "time_t \<Rightarrow> hpkp \<Rightarrow> bool" where
  "is_expired curtime h = (0 <s max_age h \<and> created h + max_age h <s curtime)"

text \<open>
  \<^verbatim>\<open>__wget_hpkp_db_add\<close>. \<open>t\<close> is what \<^verbatim>\<open>time(NULL)\<close> returns in this call. The function
  returns the outcome and the store; \<open>the found\<close> is read only where \<open>found \<noteq> None\<close>
  (the source's \<^verbatim>\<open>hpkp &&\<close>).
\<close>

definition uu_wget_hpkp_db_add :: "time_t \<Rightarrow> hpkp_db \<Rightarrow> hpkp \<Rightarrow> bool \<Rightarrow> hpkp_status \<times> hpkp_db" where
  "uu_wget_hpkp_db_add t db hpkp_new excl =
     (let curtime = curtime_of t in
      if is_expired curtime hpkp_new then (WGET_HPKP_ENTRY_EXPIRED, db)
      else
        let num_pins = length (pins hpkp_new);
            found = wget_hashmap_get db (host hpkp_new)
        in
          if found \<noteq> None \<and> excl then (WGET_HPKP_ENTRY_EXISTS, db)
          else if found = None \<and> max_age hpkp_new \<noteq> 0 \<and> 2 \<le> num_pins
          then (WGET_HPKP_OK, wget_hashmap_put_noalloc db (host hpkp_new) hpkp_new)
          else if found \<noteq> None \<and> max_age hpkp_new \<noteq> 0 \<and> 2 \<le> num_pins
          then
            (if created (the found) <s created hpkp_new \<and>
                (include_subdomains (the found) \<noteq> include_subdomains hpkp_new \<or>
                 max_age (the found) \<noteq> max_age hpkp_new \<or>
                 uu_wget_hpkp_compare_spkis (the found) hpkp_new \<noteq> 0)
             then (WGET_HPKP_OK, wget_hashmap_put_noalloc db (host hpkp_new) hpkp_new)
             else (WGET_HPKP_ENTRY_EXISTS, db))
          else if found \<noteq> None \<and> (max_age hpkp_new = 0 \<or> num_pins = 0)
          then (WGET_HPKP_WAS_DELETED, wget_hashmap_remove db (host (the found)))
          else if num_pins < 2 then (WGET_HPKP_NOT_ENOUGH_PINS, db)
          else (WGET_HPKP_ERROR, db))"

text \<open>
  The collaborators hpkp.c calls but does not define, as parameters: the base64 codec
  (\<^verbatim>\<open>wget_base64_decode_alloc\<close> returns the decoded buffer, \<^verbatim>\<open>wget_base64_encode_alloc\<close>
  the text of the bytes it is given) and the IRI parser (\<open>None\<close> is the \<^verbatim>\<open>NULL\<close> result,
  \<open>Some ip\<close> an IRI whose \<^verbatim>\<open>is_ip_address\<close> flag is \<open>ip\<close>).
\<close>

record ext =
  wget_base64_decode_alloc :: "string \<Rightarrow> pin"
  wget_base64_encode_alloc :: "pin \<Rightarrow> string"
  wget_iri_parse :: "string \<Rightarrow> bool option"

text \<open>
  \<^verbatim>\<open>__wget_hpkp_db_put_base64_spki\<close>, as a browse callback: the context is the entry under
  construction. The \<^verbatim>\<open>NULL\<close> checks of the source cannot fail for the values of the model.
\<close>

definition uu_wget_hpkp_db_put_base64_spki :: "ext \<Rightarrow> hpkp \<Rightarrow> string \<Rightarrow> int \<times> hpkp" where
  "uu_wget_hpkp_db_put_base64_spki x h b64_pubkey =
     (let pubkey = wget_base64_decode_alloc x b64_pubkey in
      if \<not> wget_vector_contains cmp_pins_cb (pins h) pubkey
      then (0, h\<lparr>pins := pins h @ [pubkey]\<rparr>)
      else (0, h))"

text \<open>
  \<^verbatim>\<open>wget_hpkp_db_add\<close>. A pointer argument that may be \<^verbatim>\<open>NULL\<close> is an option. \<open>t1\<close> is the
  clock value read here (the stamp of the candidate), \<open>t2\<close> the one read inside
  \<^verbatim>\<open>__wget_hpkp_db_add\<close>. A negative outcome releases the candidate.
\<close>

definition wget_hpkp_db_add ::
  "ext \<Rightarrow> time_t \<Rightarrow> time_t \<Rightarrow> hpkp_db option \<Rightarrow> string option \<Rightarrow> time_t \<Rightarrow> 8 word \<Rightarrow>
   string list option \<Rightarrow> hpkp_status \<times> hpkp_db option" where
  "wget_hpkp_db_add x t1 t2 hpkp_db host_arg max_age_arg include_subdomains_arg b64_pins =
     (case (hpkp_db, host_arg, b64_pins) of
        (Some db, Some h, Some b64s) \<Rightarrow>
          (let cur_time = curtime_of t1;
               cand = snd (wget_vector_browse b64s (uu_wget_hpkp_db_put_base64_spki x)
                         (wget_hpkp_new h cur_time max_age_arg include_subdomains_arg));
               (retval, db') = uu_wget_hpkp_db_add t2 db cand False
           in if status_code retval < 0
              then (retval, Some (uu_wget_hpkp_free cand db'))
              else (retval, Some db'))
      | _ \<Rightarrow> (WGET_HPKP_ERROR, hpkp_db))"

subsection \<open>The C library, as hpkp.c uses it\<close>

abbreviation TAB :: char where "TAB \<equiv> CHR 0x09"
abbreviation NL :: char where "NL \<equiv> CHR 0x0A"

text \<open>
  The \<^verbatim>\<open>isspace\<close> of the C library ("C" locale), which \<^verbatim>\<open>sscanf\<close> applies, and the macro
  by which hpkp.c replaces it in its own code: \<^verbatim>\<open>#define isspace(c) (c == ' ' || c == '\t')\<close>.
\<close>

definition c_isspace :: "char \<Rightarrow> bool" where
  "c_isspace c = (c \<in> set [CHR '' '', TAB, NL, CHR 0x0B, CHR 0x0C, CHR 0x0D])"

definition isspace :: "char \<Rightarrow> bool" where
  "isspace c = (c = CHR '' '' \<or> c = TAB)"

definition isdigit :: "char \<Rightarrow> bool" where
  "isdigit c = (c \<in> set ''0123456789'')"

text \<open>A line buffer read as a C string ends at its first NUL byte.\<close>

definition c_str :: "string \<Rightarrow> string" where
  "c_str buf = takeWhile (\<lambda>c. c \<noteq> CHR 0x00) buf"

text \<open>
  The conversion \<^verbatim>\<open>%s\<close> (and \<^verbatim>\<open>%ms\<close>) of \<^verbatim>\<open>sscanf\<close>: skip white space, then take the
  longest run of other characters; the conversion fails on an empty run. The result is
  the run and the input left after it.
\<close>

definition scan_word :: "string \<Rightarrow> (string \<times> string) option" where
  "scan_word s =
     (let s1 = dropWhile c_isspace s;
          tok = takeWhile (\<lambda>c. \<not> c_isspace c) s1
      in if tok = [] then None else Some (tok, dropWhile (\<lambda>c. \<not> c_isspace c) s1))"

text \<open>\<^verbatim>\<open>printf\<close> with \<^verbatim>\<open>%lu\<close> or \<^verbatim>\<open>%u\<close>: the decimal digits of a number.\<close>

definition digit_char :: "nat \<Rightarrow> char" where
  "digit_char d = ''0123456789'' ! d"

function decimal :: "int \<Rightarrow> string" where
  "decimal n =
     (if n < 10 then [digit_char (nat n)]
      else decimal (n div 10) @ [digit_char (nat (n mod 10))])"
  by pat_completeness auto
termination
  by (relation "measure nat") auto

declare decimal.simps [simp del]

text \<open>
  \<^verbatim>\<open>strtoul(dst, NULL, 10)\<close> on a string of digits: its value, or \<^verbatim>\<open>ULONG_MAX\<close> when the
  value does not fit 64 bits. Numbers that can be large are integers of type \<open>int\<close>.
\<close>

definition digit_val :: "char \<Rightarrow> int" where
  "digit_val c = of_char c - 48"

definition digits_value :: "string \<Rightarrow> int" where
  "digits_value ds = foldl (\<lambda>a c. 10 * a + digit_val c) 0 ds"

definition strtoul :: "string \<Rightarrow> 64 word" where
  "strtoul ds = (if digits_value ds < 2 ^ 64 then word_of_int (digits_value ds) else - 1)"

subsection \<open>Parsing the file format\<close>

text \<open>
  Each parser takes the string at the cursor \<^verbatim>\<open>*str\<close> and returns, on success, its
  output with the string at the advanced cursor; \<open>None\<close> is the return value 0 (or -1 for
  the line parsers).

  \<^verbatim>\<open>__parse_hostname\<close>: the cursor advances by the length of the scanned word, counted from
  the start of the line (not from the start of the word).
\<close>

definition uu_parse_hostname :: "string \<Rightarrow> (string \<times> string) option" where
  "uu_parse_hostname str =
     (case scan_word str of
        None \<Rightarrow> None
      | Some (out, _) \<Rightarrow>
          (let str' = drop (length out) str
           in if str' = [] \<or> isspace (hd str') then Some (out, str') else None))"

definition uu_next_token :: "string \<Rightarrow> string option" where
  "uu_next_token str = (let str' = dropWhile isspace str in if str' \<noteq> [] then Some str' else None)"

text \<open>
  The loop of \<^verbatim>\<open>__parse_number_unsigned\<close>: \<open>scan_digits n str dst\<close> runs it with \<open>n\<close>
  iterations left (\<^verbatim>\<open>len - i\<close>), the digits copied so far in \<open>dst\<close>; \<open>None\<close> is the
  \<^verbatim>\<open>goto end\<close> on a character that is neither a digit nor blank.
\<close>

fun scan_digits :: "nat \<Rightarrow> string \<Rightarrow> string \<Rightarrow> (string \<times> string) option" where
  "scan_digits 0 str dst = Some (dst, str)"
| "scan_digits (Suc n) [] dst = Some (dst, [])"
| "scan_digits (Suc n) (c # cs) dst =
     (if isdigit c then scan_digits n cs (dst @ [c])
      else if isspace c then Some (dst, c # cs)
      else None)"

text \<open>
  The parsers store their results through pointers. \<^verbatim>\<open>__parse_number_unsigned\<close> takes an
  \<^verbatim>\<open>unsigned long int *\<close>, and its statement \<^verbatim>\<open>*out = strtoul(dst, NULL, 10)\<close> stores
  \<^verbatim>\<open>sizeof (unsigned long)\<close> bytes, whatever object the caller took the pointer from. The
  model passes the size of that object as \<open>out_size\<close>. A store into a smaller object runs
  over the end of it, into whatever the caller's frame holds there: that is the outcome
  \<open>Overrun\<close>. \<open>Malformed\<close> is the return value 0 of a field parser and -1 of a line
  parser. The sizes are those of the LP64 platform that the embedding assumes.
\<close>

datatype 'a parsed = Parsed 'a | Malformed | Overrun

definition sizeof_unsigned_long :: nat where
  "sizeof_unsigned_long = 8"

definition sizeof_time_t :: nat where
  "sizeof_time_t = 8"

definition sizeof_unsigned_int :: nat where
  "sizeof_unsigned_int = 4"

definition uu_parse_number_unsigned :: "string \<Rightarrow> nat \<Rightarrow> nat \<Rightarrow> (64 word \<times> string) parsed" where
  "uu_parse_number_unsigned str len out_size =
     (case scan_digits len str [] of
        None \<Rightarrow> Malformed
      | Some (dst, str') \<Rightarrow>
          if dst \<noteq> [] then
            (if hd dst = CHR ''0'' \<and> 1 < length dst then Malformed
             else if out_size < sizeof_unsigned_long then Overrun
             else Parsed (strtoul dst, str'))
          else Malformed)"

definition uu_parse_digit :: "string \<Rightarrow> (8 word \<times> string) option" where
  "uu_parse_digit str =
     (case str of
        [] \<Rightarrow> None
      | c # cs \<Rightarrow> if isdigit c then Some (word_of_int (of_char c) - 48, cs) else None)"

text \<open>
  \<^verbatim>\<open>__wget_hpkp_parse_host_line\<close>. The result is (host, created, max_age,
  include_subdomains, num_pins). \<^verbatim>\<open>created\<close> and \<^verbatim>\<open>max_age\<close> point to \<^verbatim>\<open>time_t\<close> objects
  of the caller. \<^verbatim>\<open>num_pins\<close> points to an \<^verbatim>\<open>unsigned int\<close>, and the source passes it as
  \<^verbatim>\<open>(unsigned long int *) num_pins\<close>: when the last field of the line is a number, the
  8-byte store of \<^verbatim>\<open>__parse_number_unsigned\<close> goes into that 4-byte object. The test
  \<^verbatim>\<open>*num_pins > 0\<close> comes after the store; the model keeps it where the source has it.
\<close>

definition uu_wget_hpkp_parse_host_line ::
  "ext \<Rightarrow> string \<Rightarrow> nat \<Rightarrow> (string \<times> time_t \<times> time_t \<times> 8 word \<times> 32 word) parsed" where
  "uu_wget_hpkp_parse_host_line x line len =
     (case uu_parse_hostname line of
        None \<Rightarrow> Malformed
      | Some (host_out, l1) \<Rightarrow>
     (case wget_iri_parse x host_out of
        None \<Rightarrow> Malformed
      | Some is_ip_address \<Rightarrow>
          if is_ip_address then Malformed else
     (case uu_next_token l1 of None \<Rightarrow> Malformed | Some l2 \<Rightarrow>
     (case uu_parse_number_unsigned l2 len sizeof_time_t of
        Malformed \<Rightarrow> Malformed | Overrun \<Rightarrow> Overrun | Parsed (created_out, l3) \<Rightarrow>
     (case uu_next_token l3 of None \<Rightarrow> Malformed | Some l4 \<Rightarrow>
     (case uu_parse_number_unsigned l4 len sizeof_time_t of
        Malformed \<Rightarrow> Malformed | Overrun \<Rightarrow> Overrun | Parsed (max_age_out, l5) \<Rightarrow>
     (case uu_next_token l5 of None \<Rightarrow> Malformed | Some l6 \<Rightarrow>
     (case uu_parse_digit l6 of None \<Rightarrow> Malformed | Some (incl, l7) \<Rightarrow>
          if 1 < incl then Malformed else
     (case uu_next_token l7 of None \<Rightarrow> Malformed | Some l8 \<Rightarrow>
     (case uu_parse_number_unsigned l8 len sizeof_unsigned_int of
        Malformed \<Rightarrow> Malformed | Overrun \<Rightarrow> Overrun | Parsed (n, l9) \<Rightarrow>
          if 0 < (ucast n :: 32 word)
          then Parsed (host_out, created_out, max_age_out, incl, ucast n)
          else Malformed))))))))))"

text \<open>
  \<^verbatim>\<open>__wget_hpkp_parse_pin_line\<close>: \<^verbatim>\<open>sscanf(line, "%s\t%ms", ...)\<close> must convert two words
  and the first must be \<^verbatim>\<open>sha-256\<close>. The result is the base64 text.
\<close>

definition uu_wget_hpkp_parse_pin_line :: "string \<Rightarrow> string option" where
  "uu_wget_hpkp_parse_pin_line line =
     (case scan_word line of
        None \<Rightarrow> None
      | Some (sha256_magic, rest) \<Rightarrow>
          (case scan_word rest of
             None \<Rightarrow> None
           | Some (b64_pin, _) \<Rightarrow>
               if sha256_magic \<noteq> ''sha-256'' then None else Some b64_pin))"

subsection \<open>Files\<close>

text \<open>
  Modelled from the spec: the file system and the line reader are outside hpkp.c. A path
  names a regular file with its content, a symbolic link with its target, or something
  else (a directory, a device, a socket); \<open>denied\<close> lists the paths that cannot be
  opened. \<open>stat\<close> reports the kind of the node at the path as the source tests it
  (\<^verbatim>\<open>S_ISREG\<close>, \<^verbatim>\<open>S_ISLNK\<close>); \<open>None\<close> is the return value -1. A link is reported as
  a link, which is what the branch \<^verbatim>\<open>S_ISLNK\<close> of the source expects; \<^verbatim>\<open>stat(2)\<close> itself
  reports the kind of the link's target. No property below involves a link.
\<close>

datatype node = Regular string | Symlink string | Other

datatype st_mode = S_IFREG | S_IFLNK | S_IFOTHER

record filesystem =
  nodes :: "string \<rightharpoonup> node"
  denied :: "string list"

definition stat :: "filesystem \<Rightarrow> string \<Rightarrow> st_mode option" where
  "stat fs path =
     (case nodes fs path of
        None \<Rightarrow> None
      | Some (Regular _) \<Rightarrow> Some S_IFREG
      | Some (Symlink _) \<Rightarrow> Some S_IFLNK
      | Some Other \<Rightarrow> Some S_IFOTHER)"

definition readlink :: "filesystem \<Rightarrow> string \<Rightarrow> string" where
  "readlink fs path = (case nodes fs path of Some (Symlink target) \<Rightarrow> target | _ \<Rightarrow> path)"

definition unlink :: "filesystem \<Rightarrow> string \<Rightarrow> filesystem" where
  "unlink fs path =
     (case nodes fs path of
        Some Other \<Rightarrow> fs
      | _ \<Rightarrow> fs\<lparr>nodes := (nodes fs)(path := None)\<rparr>)"

text \<open>
  \<open>open_target\<close> is the path of the regular file that \<^verbatim>\<open>fopen\<close> opens: the path itself
  or the target of the link; \<open>None\<close> when the open fails. \<^verbatim>\<open>fopen(.., "w")\<close> creates a
  missing file; the content of the stream reaches the file at \<^verbatim>\<open>fclose\<close>.
\<close>

definition open_target :: "filesystem \<Rightarrow> string \<Rightarrow> string option" where
  "open_target fs path =
     (if path \<in> set (denied fs) then None
      else case nodes fs path of
        None \<Rightarrow> Some path
      | Some (Regular _) \<Rightarrow> Some path
      | Some (Symlink target) \<Rightarrow>
          (case nodes fs target of
             None \<Rightarrow> if target \<in> set (denied fs) then None else Some target
           | Some (Regular _) \<Rightarrow> if target \<in> set (denied fs) then None else Some target
           | _ \<Rightarrow> None)
      | Some Other \<Rightarrow> None)"

definition fopen_w :: "filesystem \<Rightarrow> string \<Rightarrow> string option" where
  "fopen_w fs path = open_target fs path"

definition fclose_w :: "filesystem \<Rightarrow> string \<Rightarrow> string \<Rightarrow> filesystem" where
  "fclose_w fs target content = fs\<lparr>nodes := (nodes fs)(target \<mapsto> Regular content)\<rparr>"

definition fopen_r :: "filesystem \<Rightarrow> string \<Rightarrow> string option" where
  "fopen_r fs path =
     (case open_target fs path of
        None \<Rightarrow> None
      | Some target \<Rightarrow>
          (case nodes fs target of Some (Regular content) \<Rightarrow> Some content | _ \<Rightarrow> None))"

text \<open>
  \<^verbatim>\<open>wget_getline\<close> returns the next line without its newline (hpkp.c compares the line
  it returns with \<^verbatim>\<open>"version 1"\<close>), and -1 at the end of the file; a last line that no
  newline ends is returned when it is not empty. \<open>file_lines\<close> is the list of the lines
  successive calls return.
\<close>

fun split_lines :: "string \<Rightarrow> string \<Rightarrow> string list" where
  "split_lines [] cur = (if cur = [] then [] else [cur])"
| "split_lines (c # cs) cur =
     (if c = NL then cur # split_lines cs [] else split_lines cs (cur @ [c]))"

definition file_lines :: "string \<Rightarrow> string list" where
  "file_lines content = split_lines content []"

subsection \<open>Saving\<close>

text \<open>
  \<^verbatim>\<open>__vector_browse_cb\<close>: the context is the text written to the stream so far. The source
  encodes 32 bytes of the buffer, whatever its size.
\<close>

definition uu_vector_browse_cb :: "ext \<Rightarrow> string \<Rightarrow> pin \<Rightarrow> int \<times> string" where
  "uu_vector_browse_cb x out hash =
     (0, out @ ''sha-256'' @ [TAB] @ wget_base64_encode_alloc x (map ((!) hash) [0..<32]) @ [NL])"

text \<open>
  \<^verbatim>\<open>struct browser_ctx\<close> and \<^verbatim>\<open>__hashtable_browse_cb\<close>. \<^verbatim>\<open>include_subdomains\<close> is a \<^verbatim>\<open>char\<close>
  printed with \<^verbatim>\<open>%u\<close>: it is promoted to \<^verbatim>\<open>int\<close> (sign-extended where \<^verbatim>\<open>char\<close> is signed)
  and read as unsigned.
\<close>

record browser_ctx =
  fp :: string
  written_pins :: "32 word"

definition uu_hashtable_browse_cb :: "ext \<Rightarrow> browser_ctx \<Rightarrow> string \<Rightarrow> hpkp \<Rightarrow> int \<times> browser_ctx" where
  "uu_hashtable_browse_cb x bctx url h =
     (let num_pins = (of_nat (length (pins h)) :: 32 word) in
      if 0 < num_pins then
        (let line = url @ [TAB] @ decimal (uint (created h)) @ [TAB] @
                    decimal (uint (max_age h)) @ [TAB] @
                    decimal (uint (scast (include_subdomains h) :: 32 word)) @ [TAB] @
                    decimal (uint num_pins) @ [NL];
             (r, out) = wget_vector_browse (pins h) (uu_vector_browse_cb x) (fp bctx @ line)
         in if r = 0
            then (0, bctx\<lparr>fp := out, written_pins := written_pins bctx + num_pins\<rparr>)
            else (- 1, bctx\<lparr>fp := out\<rparr>))
      else (- 1, bctx))"

text \<open>
  Modelled from the spec: \<^verbatim>\<open>wget_hashmap_browse\<close> is outside hpkp.c. The spec says of an
  entry whose callback fails that "traversal continues"; \<^verbatim>\<open>wget_hpkp_db_save\<close> ignores the
  result of the browse, so only the context is returned.
\<close>

fun wget_hashmap_browse ::
  "(string \<times> hpkp) list \<Rightarrow> ('c \<Rightarrow> string \<Rightarrow> hpkp \<Rightarrow> int \<times> 'c) \<Rightarrow> 'c \<Rightarrow> 'c" where
  "wget_hashmap_browse [] browse ctx = ctx"
| "wget_hashmap_browse ((k, v) # kvs) browse ctx =
     wget_hashmap_browse kvs browse (snd (browse ctx k v))"

definition file_header :: string where
  "file_header =
     ''# HTTP Public Key Pinning database (RFC 7469)'' @ [NL] @
     ''# Generated by wget2'' @ [NL] @
     ''# MODIFY AT YOUR OWN RISK'' @ [NL] @
     ''version 1'' @ [NL]"

text \<open>
  \<^verbatim>\<open>wget_hpkp_db_save\<close>. The result is the returned \<^verbatim>\<open>int\<close> and the file system. The label
  \<^verbatim>\<open>end:\<close> returns \<^verbatim>\<open>bctx.written_pins\<close>, an \<^verbatim>\<open>unsigned int\<close> converted to \<^verbatim>\<open>int\<close>.
\<close>

definition wget_hpkp_db_save ::
  "ext \<Rightarrow> filesystem \<Rightarrow> string option \<Rightarrow> hpkp_db option \<Rightarrow> int \<times> filesystem" where
  "wget_hpkp_db_save x fs filename hpkp_db =
     (case (filename, hpkp_db) of
        (Some fname, Some db) \<Rightarrow>
          if fname = [] then (status_code WGET_HPKP_ERROR, fs)
          else
            (let bctx = \<lparr>fp = [], written_pins = 0\<rparr>;
                 st = stat fs fname
             in
               if st \<noteq> None \<and> the st \<noteq> S_IFREG \<and> the st \<noteq> S_IFLNK
               then (sint (written_pins bctx), fs)
               else if wget_hashmap_size db = 0 then
                 (sint (written_pins bctx),
                  if st \<noteq> None
                  then (if the st = S_IFLNK then unlink fs (readlink fs fname)
                        else unlink fs fname)
                  else fs)
               else
                 (case fopen_w fs fname of
                    None \<Rightarrow> (status_code WGET_HPKP_ERROR_FILE_OPEN, fs)
                  | Some target \<Rightarrow>
                      (let bctx' = wget_hashmap_browse (entries db) (uu_hashtable_browse_cb x)
                                     (bctx\<lparr>fp := file_header\<rparr>)
                       in (sint (written_pins bctx'), fclose_w fs target (fp bctx')))))
      | _ \<Rightarrow> (status_code WGET_HPKP_ERROR, fs))"

subsection \<open>Loading\<close>

text \<open>
  The inner loop of \<^verbatim>\<open>wget_hpkp_db_load\<close>: read \<open>n\<close> more pin lines into the candidate.
  \<open>None\<close> is one of the two error exits (the file ends, or a line is not a pin line);
  otherwise the result is the candidate and the lines not yet read.
\<close>

fun read_pins :: "ext \<Rightarrow> nat \<Rightarrow> string list \<Rightarrow> hpkp \<Rightarrow> (hpkp \<times> string list) option" where
  "read_pins x 0 ls h = Some (h, ls)"
| "read_pins x (Suc n) [] h = None"
| "read_pins x (Suc n) (l # ls) h =
     (case uu_wget_hpkp_parse_pin_line (c_str l) of
        None \<Rightarrow> None
      | Some b64_pin \<Rightarrow> read_pins x n ls (snd (uu_wget_hpkp_db_put_base64_spki x h b64_pin)))"

text \<open>
  One record: the host line in \<open>l\<close> and the pin lines it announces, read from \<open>ls\<close>.
  \<^verbatim>\<open>buflen\<close> is the length of the line as read, \<^verbatim>\<open>buf\<close> the line as a C string. The
  loader passes \<^verbatim>\<open>&num_pins\<close>, the address of its \<^verbatim>\<open>unsigned int num_pins\<close>, to the host
  line parser.
\<close>

definition read_record :: "ext \<Rightarrow> string \<Rightarrow> string list \<Rightarrow> (hpkp \<times> string list) parsed" where
  "read_record x l ls =
     (case uu_wget_hpkp_parse_host_line x (c_str l) (length l) of
        Malformed \<Rightarrow> Malformed
      | Overrun \<Rightarrow> Overrun
      | Parsed (h, c, m, i, n) \<Rightarrow>
          (case read_pins x (unat n) ls (wget_hpkp_new h c m i) of
             None \<Rightarrow> Malformed
           | Some r \<Rightarrow> Parsed r))"

lemma read_pins_length:
  "read_pins x n ls h = Some (h', ls') \<Longrightarrow> length ls' \<le> length ls"
proof (induction x n ls h rule: read_pins.induct)
  case (1 x ls h)
  then show ?case by simp
next
  case (2 x n h)
  then show ?case by simp
next
  case (3 x n l ls h)
  then show ?case by (fastforce split: option.splits)
qed

lemma read_record_length:
  "read_record x l ls = Parsed (h', ls') \<Longrightarrow> length ls' \<le> length ls"
  by (auto simp: read_record_def split: option.splits parsed.splits dest: read_pins_length)

text \<open>
  The variables of \<^verbatim>\<open>wget_hpkp_db_load\<close> that live across iterations of its loop: the
  store, \<^verbatim>\<open>retval\<close>, \<^verbatim>\<open>version\<close>, and the number of calls of \<^verbatim>\<open>time\<close> made so far (the
  \<open>k\<close>-th call returns \<open>clock k\<close>).
\<close>

record load_vars =
  lv_db :: hpkp_db
  retval :: int
  version :: nat
  time_calls :: nat

text \<open>
  A call either returns, with a value, or it has made a store outside an object of its
  frame, after which nothing is known of it: it may return any value, change any
  variable, or not return.
\<close>

datatype 'a outcome = Returns 'a | Undefined_behaviour

text \<open>
  The \<^verbatim>\<open>do ... while (should_continue)\<close> loop over the lines still to be read. A line
  is skipped when \<^verbatim>\<open>buf[0] == '#'\<close> (\<open>is_comment_line\<close>). The loop ends at the end of the
  file, or with \<^verbatim>\<open>retval = WGET_HPKP_ERROR\<close> on the first line or record that does not
  parse. A candidate that is not adopted is released; on the error exits inside a record
  the source releases nothing. A host line that overruns \<^verbatim>\<open>num_pins\<close> ends the defined
  part of the run.
\<close>

definition is_comment_line :: "string \<Rightarrow> bool" where
  "is_comment_line l = (c_str l \<noteq> [] \<and> hd (c_str l) = CHR ''#'')"

function load_loop :: "ext \<Rightarrow> (nat \<Rightarrow> time_t) \<Rightarrow> string list \<Rightarrow> load_vars \<Rightarrow> load_vars outcome" where
  "load_loop x clock [] s = Returns s"
| "load_loop x clock (l # ls) s =
     (if is_comment_line l then load_loop x clock ls s
      else if version s = 0 then
        (if c_str l \<noteq> ''version 1'' then Returns (s\<lparr>retval := status_code WGET_HPKP_ERROR\<rparr>)
         else load_loop x clock ls (s\<lparr>version := 1\<rparr>))
      else
        (case read_record x l ls of
           Malformed \<Rightarrow> Returns (s\<lparr>retval := status_code WGET_HPKP_ERROR\<rparr>)
         | Overrun \<Rightarrow> Undefined_behaviour
         | Parsed (cand, ls') \<Rightarrow>
             (case uu_wget_hpkp_db_add (clock (time_calls s)) (lv_db s) cand True of
                (r, db') \<Rightarrow>
                  load_loop x clock ls'
                    (s\<lparr>lv_db := (if r = WGET_HPKP_OK then db' else uu_wget_hpkp_free cand db'),
                       retval := 0,
                       time_calls := Suc (time_calls s)\<rparr>))))"
  by pat_completeness auto
termination
  by (relation "measure (\<lambda>(x, clock, ls, s). length ls)")
     (auto dest: read_record_length simp: less_Suc_eq_le)

text \<open>
  \<^verbatim>\<open>wget_hpkp_db_load\<close>. The result is the returned \<^verbatim>\<open>int\<close> and the store. \<open>load_start\<close>
  holds the variables as the function initialises them, \<open>load_result\<close> is its last line,
  \<^verbatim>\<open>return (retval == 0 ? WGET_HPKP_OK : retval)\<close>.
\<close>

definition load_start :: "hpkp_db \<Rightarrow> load_vars" where
  "load_start db = \<lparr>lv_db = db, retval = 0, version = 0, time_calls = 0\<rparr>"

definition load_result :: "load_vars \<Rightarrow> int \<times> hpkp_db option" where
  "load_result s =
     ((if retval s = 0 then status_code WGET_HPKP_OK else retval s), Some (lv_db s))"

definition wget_hpkp_db_load ::
  "ext \<Rightarrow> (nat \<Rightarrow> time_t) \<Rightarrow> filesystem \<Rightarrow> string option \<Rightarrow> hpkp_db option \<Rightarrow>
   (int \<times> hpkp_db option) outcome" where
  "wget_hpkp_db_load x clock fs filename hpkp_db =
     (case (filename, hpkp_db) of
        (Some fname, Some db) \<Rightarrow>
          if fname = [] then Returns (status_code WGET_HPKP_ERROR, hpkp_db)
          else
            (case fopen_r fs fname of
               None \<Rightarrow> Returns (status_code WGET_HPKP_ERROR_FILE_OPEN, hpkp_db)
             | Some content \<Rightarrow>
                 (case load_loop x clock (file_lines content) (load_start db) of
                    Undefined_behaviour \<Rightarrow> Undefined_behaviour
                  | Returns s \<Rightarrow> Returns (load_result s)))
      | _ \<Rightarrow> Returns (status_code WGET_HPKP_ERROR, hpkp_db))"

subsection \<open>The text of a saved record\<close>

text \<open>
  The lines \<^verbatim>\<open>__hashtable_browse_cb\<close> and \<^verbatim>\<open>__vector_browse_cb\<close> print for one entry, as
  functions of the entry (lemma \<open>hashtable_browse_cb_text\<close> shows that the callbacks write
  exactly these lines).
\<close>

definition host_line :: "string \<Rightarrow> hpkp \<Rightarrow> string" where
  "host_line url h =
     url @ [TAB] @ decimal (uint (created h)) @ [TAB] @ decimal (uint (max_age h)) @ [TAB] @
     decimal (uint (scast (include_subdomains h) :: 32 word)) @ [TAB] @
     decimal (uint (of_nat (length (pins h)) :: 32 word))"

definition pin_line :: "ext \<Rightarrow> pin \<Rightarrow> string" where
  "pin_line x p = ''sha-256'' @ [TAB] @ wget_base64_encode_alloc x (map ((!) p) [0..<32])"

definition record_lines :: "ext \<Rightarrow> string \<times> hpkp \<Rightarrow> string list" where
  "record_lines x kv = host_line (fst kv) (snd kv) # map (pin_line x) (pins (snd kv))"

definition unlines :: "string list \<Rightarrow> string" where
  "unlines ls = concat (map (\<lambda>l. l @ [NL]) ls)"

definition header_lines :: "string list" where
  "header_lines = [''# HTTP Public Key Pinning database (RFC 7469)'', ''# Generated by wget2'',
                   ''# MODIFY AT YOUR OWN RISK'', ''version 1'']"

definition pin_count :: "(string \<times> hpkp) list \<Rightarrow> nat" where
  "pin_count kvs = sum_list (map (\<lambda>kv. length (pins (snd kv))) kvs)"

text \<open>
  The entries the file format is meant for, following the data model of the spec. A host is
  a non-empty word without white space that does not start a comment line and that the
  IRI parser accepts as a name, not as an IP literal. A pin is a 32-byte digest whose
  base64 text is a non-empty word that decodes to the digest. An entry is stored under
  its host, its flag is 0 or 1, its \<^verbatim>\<open>max_age\<close> is not 0, and it has at least two pins,
  all distinct.
\<close>

definition storable_host :: "ext \<Rightarrow> string \<Rightarrow> bool" where
  "storable_host x h =
     (h \<noteq> [] \<and> hd h \<noteq> CHR ''#'' \<and> list_all (\<lambda>c. \<not> c_isspace c \<and> c \<noteq> CHR 0x00) h \<and>
      wget_iri_parse x h = Some False)"

definition codec_ok :: "ext \<Rightarrow> pin \<Rightarrow> bool" where
  "codec_ok x p =
     (length p = 32 \<and> wget_base64_encode_alloc x p \<noteq> [] \<and>
      list_all (\<lambda>c. \<not> c_isspace c \<and> c \<noteq> CHR 0x00) (wget_base64_encode_alloc x p) \<and>
      wget_base64_decode_alloc x (wget_base64_encode_alloc x p) = p)"

definition storable_entry :: "ext \<Rightarrow> string \<times> hpkp \<Rightarrow> bool" where
  "storable_entry x kv =
     (host (snd kv) = fst kv \<and> storable_host x (fst kv) \<and>
      (include_subdomains (snd kv) = 0 \<or> include_subdomains (snd kv) = 1) \<and>
      max_age (snd kv) \<noteq> 0 \<and> 2 \<le> length (pins (snd kv)) \<and>
      int (length (pins (snd kv))) < 2 ^ 32 \<and> distinct (pins (snd kv)) \<and>
      list_all (codec_ok x) (pins (snd kv)))"

subsection \<open>An instance of the collaborators\<close>

text \<open>
  The theorems below assume of the codec and of the IRI parser only what they use. The
  following instance shows that the assumptions can be met: base64 as RFC 4648 defines
  it, and a host check that rejects the empty string and takes a string of digits and
  dots for an IP literal.
\<close>

definition b64_alphabet :: string where
  "b64_alphabet = ''ABCDEFGHIJKLMNOPQRSTUVWXYZabcdefghijklmnopqrstuvwxyz0123456789+/''"

fun b64_encode_nat :: "nat list \<Rightarrow> string" where
  "b64_encode_nat (a # b # c # bs) =
     [b64_alphabet ! (a div 4), b64_alphabet ! (a mod 4 * 16 + b div 16),
      b64_alphabet ! (b mod 16 * 4 + c div 64), b64_alphabet ! (c mod 64)] @ b64_encode_nat bs"
| "b64_encode_nat [a, b] =
     [b64_alphabet ! (a div 4), b64_alphabet ! (a mod 4 * 16 + b div 16),
      b64_alphabet ! (b mod 16 * 4), CHR ''='']"
| "b64_encode_nat [a] =
     [b64_alphabet ! (a div 4), b64_alphabet ! (a mod 4 * 16), CHR ''='', CHR ''='']"
| "b64_encode_nat [] = []"

definition b64_index :: "char \<Rightarrow> nat" where
  "b64_index c = length (takeWhile (\<lambda>d. d \<noteq> c) b64_alphabet)"

fun b64_decode_nat :: "nat list \<Rightarrow> nat list" where
  "b64_decode_nat (p # q # r # s # ss) =
     [p * 4 + q div 16, q mod 16 * 16 + r div 4, r mod 4 * 64 + s] @ b64_decode_nat ss"
| "b64_decode_nat [p, q, r] = [p * 4 + q div 16, q mod 16 * 16 + r div 4]"
| "b64_decode_nat [p, q] = [p * 4 + q div 16]"
| "b64_decode_nat [p] = []"
| "b64_decode_nat [] = []"

definition rfc4648_encode :: "pin \<Rightarrow> string" where
  "rfc4648_encode bs = b64_encode_nat (map unat bs)"

definition rfc4648_decode :: "string \<Rightarrow> pin" where
  "rfc4648_decode s =
     map of_nat (b64_decode_nat (map b64_index (filter (\<lambda>c. c \<in> set b64_alphabet) s)))"

definition demo_iri_parse :: "string \<Rightarrow> bool option" where
  "demo_iri_parse h =
     (if h = [] then None else Some (list_all (\<lambda>c. isdigit c \<or> c = CHR ''.'') h))"

definition demo_ext :: ext where
  "demo_ext = \<lparr>wget_base64_decode_alloc = rfc4648_decode,
               wget_base64_encode_alloc = rfc4648_encode,
               wget_iri_parse = demo_iri_parse\<rparr>"

text \<open>Four digests, two entries and a clock for the concrete instances.\<close>

definition pin_A :: pin where "pin_A = replicate 32 1"
definition pin_B :: pin where "pin_B = replicate 32 2"
definition pin_C :: pin where "pin_C = map of_nat [0..<32]"
definition pin_D :: pin where "pin_D = replicate 32 255"

definition entry_1 :: hpkp where
  "entry_1 = \<lparr>host = ''example.com'', created = 1000, max_age = 5000,
              include_subdomains = 0, pins = [pin_A, pin_B]\<rparr>"

definition entry_2 :: hpkp where
  "entry_2 = \<lparr>host = ''www.example.org'', created = 1200, max_age = 86400,
              include_subdomains = 1, pins = [pin_C, pin_D]\<rparr>"

definition demo_db :: hpkp_db where
  "demo_db = \<lparr>entries = [(''example.com'', entry_1), (''www.example.org'', entry_2)],
              released = []\<rparr>"

definition demo_clock :: "nat \<Rightarrow> time_t" where
  "demo_clock k = 2000 + of_nat k"

definition stale_entry :: hpkp where
  "stale_entry = \<lparr>host = ''example.com'', created = 10000, max_age = 100,
                  include_subdomains = 0, pins = [pin_A, pin_B]\<rparr>"

definition grown_entry :: hpkp where
  "grown_entry = entry_1\<lparr>created := 1500, pins := [pin_A, pin_B, pin_C]\<rparr>"

text \<open>
  Candidates whose \<^verbatim>\<open>max_age\<close> is \<^verbatim>\<open>LONG_MAX\<close>: one without pins and one with two pins,
  both for the host of \<open>entry_1\<close>.
\<close>

definition far_entry :: hpkp where
  "far_entry = \<lparr>host = ''example.com'', created = 1500, max_age = 0x7FFFFFFFFFFFFFFF,
                include_subdomains = 0, pins = []\<rparr>"


text \<open>
  File systems, entries and lines for the concrete instances: a path that holds a file
  with given lines, a path that is a directory, an entry long expired, an entry with one
  pin, an entry with one pin for the host of \<open>entry_1\<close>, an entry that competes with
  \<open>entry_1\<close> for its host, and a line whose second field is not a number.
\<close>

definition empty_fs :: filesystem where
  "empty_fs = \<lparr>nodes = Map.empty, denied = []\<rparr>"

definition file_at :: "string \<Rightarrow> string list \<Rightarrow> filesystem" where
  "file_at path ls = \<lparr>nodes = [path \<mapsto> Regular (unlines ls)], denied = []\<rparr>"

definition dir_at :: "string \<Rightarrow> filesystem" where
  "dir_at path = \<lparr>nodes = [path \<mapsto> Other], denied = []\<rparr>"

definition old_entry :: hpkp where
  "old_entry = \<lparr>host = ''old.example.com'', created = 10, max_age = 100,
                include_subdomains = 0, pins = [pin_A, pin_B]\<rparr>"

definition single_pin_entry :: hpkp where
  "single_pin_entry = \<lparr>host = ''one.example.com'', created = 1000, max_age = 5000,
                       include_subdomains = 1, pins = [pin_C]\<rparr>"


definition rival_entry :: hpkp where
  "rival_entry = \<lparr>host = ''example.com'', created = 1500, max_age = 9999,
                  include_subdomains = 1, pins = [pin_C, pin_D]\<rparr>"

definition bad_line :: string where
  "bad_line = ''www.example.org 12x4 86400 1 2''"

text \<open>
  Three files: one whose records are all rejected by a store that holds \<open>demo_db\<close> (an
  expired record, a record with one pin, a record for a host the store has), one with two
  records for the same host, and one whose second record is malformed.
\<close>

definition lines_of :: "hpkp \<Rightarrow> string list" where
  "lines_of e = record_lines demo_ext (host e, e)"

definition rejected_file :: "string list" where
  "rejected_file = header_lines @ lines_of old_entry @ lines_of single_pin_entry @ lines_of entry_1"

definition duplicate_file :: "string list" where
  "duplicate_file = header_lines @ lines_of entry_1 @ lines_of rival_entry"

definition broken_file :: "string list" where
  "broken_file = header_lines @ lines_of entry_1 @ [bad_line]"

section \<open>Properties of admission\<close>

subsection \<open>Comparing pins\<close>

lemma cmp_pins_loop_iff:
  "cmp_pins_loop n i p1 p2 \<longleftrightarrow> (\<forall>j<n. p1 ! (i + j) = p2 ! (i + j))"
proof (induction n arbitrary: i)
  case 0
  show ?case by simp
next
  case (Suc n)
  have "(\<forall>j<Suc n. p1 ! (i + j) = p2 ! (i + j)) \<longleftrightarrow>
        (p1 ! i = p2 ! i \<and> (\<forall>j<n. p1 ! (Suc i + j) = p2 ! (Suc i + j)))"
    by (simp add: All_less_Suc2)
  then show ?case by (simp add: Suc.IH)
qed

lemma cmp_pins_cb_32:
  assumes "length p1 = 32" "length p2 = 32"
  shows "cmp_pins_cb p1 p2 = 0 \<longleftrightarrow> p1 = p2"
  using assms by (auto simp: cmp_pins_cb_def cmp_pins_loop_iff list_eq_iff_nth_eq)

lemma contains_32:
  assumes "length p = 32" "\<forall>q\<in>set v. length q = 32"
  shows "wget_vector_contains cmp_pins_cb v p \<longleftrightarrow> p \<in> set v"
  using assms by (auto simp: wget_vector_contains_def list_ex_iff cmp_pins_cb_32)

lemma browse_contains:
  "fst (wget_vector_browse ps uu_wget_hpkp_contains_spki_cb h) \<noteq> 0 \<longleftrightarrow>
   (\<exists>p\<in>set ps. \<not> wget_vector_contains cmp_pins_cb (pins h) p)"
  by (induction ps) (auto simp: uu_wget_hpkp_contains_spki_cb_def)

lemma compare_spkis_subset:
  assumes "\<forall>p\<in>set (pins h1). length p = 32" "\<forall>p\<in>set (pins h2). length p = 32"
  shows "uu_wget_hpkp_compare_spkis h1 h2 \<noteq> 0 \<longleftrightarrow> \<not> set (pins h1) \<subseteq> set (pins h2)"
  using assms by (auto simp: uu_wget_hpkp_compare_spkis_def browse_contains contains_32)

lemma pin_lengths: "length pin_A = 32" "length pin_B = 32" "length pin_C = 32" "length pin_D = 32"
  by (simp_all add: pin_A_def pin_B_def pin_C_def pin_D_def)

lemma pins_differ:
  "pin_A \<noteq> pin_B" "pin_A \<noteq> pin_C" "pin_A \<noteq> pin_D" "pin_B \<noteq> pin_C" "pin_B \<noteq> pin_D"
  "pin_C \<noteq> pin_D"
  by (code_simp)+

subsection \<open>Signed time arithmetic\<close>

lemma sint_add_no_overflow:
  fixes a b :: time_t
  assumes "- (2 ^ 63) \<le> sint a + sint b" "sint a + sint b < 2 ^ 63"
  shows "sint (a + b) = sint a + sint b"
  using assms by (simp add: sint_word_ariths signed_take_bit_int_eq_self)

lemma sint_time_range: "- (2 ^ 63) \<le> sint (a :: time_t) \<and> sint a < 2 ^ 63"
  using sint_ge [of a] sint_lt [of a] by simp

text \<open>
  The expiry test of the code adds \<^verbatim>\<open>created\<close> and \<^verbatim>\<open>max_age\<close> in 64 bits. When the sum
  of the two does not exceed the largest \<^verbatim>\<open>time_t\<close>, the test is the comparison in the
  integers.
\<close>

lemma is_expired_int:
  assumes "sint (created c) + sint (max_age c) < 2 ^ 63"
  shows "is_expired now c \<longleftrightarrow>
         0 < sint (max_age c) \<and> sint (created c) + sint (max_age c) < sint now"
proof (cases "0 < sint (max_age c)")
  case True
  have lo: "- (2 ^ 63) \<le> sint (created c) + sint (max_age c)"
    using True sint_time_range [of "created c"] by linarith
  have "sint (created c + max_age c) = sint (created c) + sint (max_age c)"
    by (rule sint_add_no_overflow [OF lo assms])
  then show ?thesis using True by (simp add: is_expired_def word_sless_alt)
next
  case False
  then show ?thesis by (simp add: is_expired_def word_sless_alt)
qed

subsection \<open>The store\<close>

lemma keyed_by_host_lookup:
  assumes "keyed_by_host db" "wget_hashmap_get db k = Some e"
  shows "host e = k"
proof -
  have "(k, e) \<in> set (entries db)"
    using assms(2) by (simp add: wget_hashmap_get_def map_of_SomeD)
  then show ?thesis using assms(1) by (auto simp: keyed_by_host_def list_all_iff)
qed

text \<open>The invariant holds of the empty store and admission keeps it.\<close>

lemma keyed_by_host_init: "keyed_by_host wget_hpkp_db_init"
  by (simp add: keyed_by_host_def wget_hpkp_db_init_def)

lemma list_all_update:
  assumes "list_all P al" "P (k, v)"
  shows "list_all P (AList.update k v al)"
  using assms by (induction al) auto

lemma list_all_delete:
  assumes "list_all P al"
  shows "list_all P (AList.delete k al)"
  using assms by (induction al) auto

lemma keyed_by_host_put:
  assumes "keyed_by_host db"
  shows "keyed_by_host (wget_hashmap_put_noalloc db (host c) c)"
  using assms
  by (simp add: keyed_by_host_def wget_hashmap_put_noalloc_def distinct_update list_all_update)

lemma keyed_by_host_remove:
  assumes "keyed_by_host db"
  shows "keyed_by_host (wget_hashmap_remove db k)"
  using assms
  by (simp add: keyed_by_host_def wget_hashmap_remove_def distinct_delete list_all_delete)

lemma keyed_by_host_add:
  assumes "keyed_by_host db"
  shows "keyed_by_host (snd (uu_wget_hpkp_db_add t db c excl))"
  using assms keyed_by_host_put [OF assms, of c] keyed_by_host_remove [OF assms]
  by (simp add: uu_wget_hpkp_db_add_def Let_def)

lemma keyed_demo_db: "keyed_by_host demo_db"
  by (simp add: keyed_by_host_def demo_db_def entry_1_def entry_2_def)

lemma demo_db_lookup_1: "wget_hashmap_get demo_db ''example.com'' = Some entry_1"
  by (simp add: wget_hashmap_get_def demo_db_def)

lemma add_expired_only_if:
  "fst (uu_wget_hpkp_db_add t db c excl) = WGET_HPKP_ENTRY_EXPIRED \<longleftrightarrow>
   is_expired (curtime_of t) c"
  by (auto simp: uu_wget_hpkp_db_add_def Let_def)

lemma add_exclusive_existing:
  assumes "wget_hashmap_get db (host c) = Some e" "\<not> is_expired (curtime_of t) c"
  shows "uu_wget_hpkp_db_add t db c True = (WGET_HPKP_ENTRY_EXISTS, db)"
  using assms by (simp add: uu_wget_hpkp_db_add_def)

subsection \<open>Update of a resident entry\<close>

text \<open>
  What the code computes when a candidate with \<^verbatim>\<open>max_age != 0\<close> and at least two pins,
  which passes the expiry test, meets a resident entry \<open>e\<close> (all pins 32-byte digests):
  it replaces \<open>e\<close> exactly when \<open>e\<close> was created before the candidate and the flags
  differ, or the \<^verbatim>\<open>max_age\<close> values differ, or some pin of \<open>e\<close> is not a pin of the
  candidate. The browse of \<^verbatim>\<open>__wget_hpkp_compare_spkis\<close> runs over the pins of the
  resident entry and looks each one up among the pins of the candidate.
\<close>

lemma add_update_branch:
  assumes "wget_hashmap_get db (host c) = Some e"
      and "max_age c \<noteq> 0" and "2 \<le> length (pins c)"
      and "\<not> is_expired (curtime_of t) c"
      and "list_all (\<lambda>p. length p = 32) (pins e @ pins c)"
  shows "uu_wget_hpkp_db_add t db c False =
           (if created e <s created c \<and>
               (include_subdomains e \<noteq> include_subdomains c \<or>
                max_age e \<noteq> max_age c \<or>
                \<not> set (pins e) \<subseteq> set (pins c))
            then (WGET_HPKP_OK, wget_hashmap_put_noalloc db (host c) c)
            else (WGET_HPKP_ENTRY_EXISTS, db))"
proof -
  have s: "uu_wget_hpkp_compare_spkis e c \<noteq> 0 \<longleftrightarrow> \<not> set (pins e) \<subseteq> set (pins c)"
    using assms(5) by (intro compare_spkis_subset) (auto simp: list_all_iff)
  show ?thesis
    using assms(1-4) s by (simp add: uu_wget_hpkp_db_add_def)
qed

text \<open>
  C1. The claim: a candidate for the host of a resident entry, with \<^verbatim>\<open>max_age != 0\<close>, at
  least two pins and not expired, replaces the resident entry and returns OK if and only
  if the resident entry was created earlier and the flags differ, or the \<^verbatim>\<open>max_age\<close>
  values differ, or the pin set of the candidate is not a subset of the resident pin set.
  The comments of the source promise the same of a changed pin list: an existing entry is
  updated when "either \<^verbatim>\<open>max-age\<close>, \<^verbatim>\<open>includeSubDomains\<close> or the SPKI list have changed",
  and ENTRY_EXISTS means that "the information provided is identical". The code does not
  deliver it. Evaluated for the store \<open>demo_db\<close>, whose entry for \<^verbatim>\<open>example.com\<close> has the
  pins \<open>A\<close>, \<open>B\<close>, and a candidate created later with the pins \<open>A\<close>, \<open>B\<close>, \<open>C\<close>, the same
  flag and the same \<^verbatim>\<open>max_age\<close>, not expired at the clock value 2000: the pin set of the
  candidate is not a subset of the resident one, and admission returns ENTRY_EXISTS and
  keeps the old entry.
\<close>

theorem superset_update_not_detected:
  "wget_hashmap_get demo_db (host grown_entry) = Some entry_1 \<and>
   max_age grown_entry \<noteq> 0 \<and> 2 \<le> length (pins grown_entry) \<and>
   sint (curtime_of 2000) \<le> sint (created grown_entry) + sint (max_age grown_entry) \<and>
   created entry_1 <s created grown_entry \<and>
   include_subdomains entry_1 = include_subdomains grown_entry \<and>
   max_age entry_1 = max_age grown_entry \<and>
   \<not> set (pins grown_entry) \<subseteq> set (pins entry_1) \<and>
   uu_wget_hpkp_db_add 2000 demo_db grown_entry False = (WGET_HPKP_ENTRY_EXISTS, demo_db)"
  by code_simp

text \<open>
  After the call the store still answers with the entry of two pins.
\<close>

theorem superset_update_not_detected_witness:
  "pins entry_1 = [pin_A, pin_B] \<and> pins grown_entry = [pin_A, pin_B, pin_C] \<and>
   wget_hashmap_get (snd (uu_wget_hpkp_db_add 2000 demo_db grown_entry False)) ''example.com'' =
     Some entry_1"
  using superset_update_not_detected
  by (simp add: demo_db_lookup_1 entry_1_def grown_entry_def)

subsection \<open>Expiry\<close>

text \<open>
  C4. For every candidate with \<^verbatim>\<open>max_age > 0\<close> and \<^verbatim>\<open>created + max_age < now\<close> (the sum
  taken in the integers, \<open>now\<close> the adjusted clock value), admission returns ENTRY_EXPIRED
  and the store is unchanged, whatever the store holds and whatever the exclusive flag.
\<close>

theorem expired_candidate_rejected:
  assumes "0 <s max_age c"
      and "sint (created c) + sint (max_age c) < sint (curtime_of t)"
  shows "uu_wget_hpkp_db_add t db c excl = (WGET_HPKP_ENTRY_EXPIRED, db)"
proof -
  have pos: "0 < sint (max_age c)" using assms(1) by (simp add: word_sless_alt)
  have lo: "- (2 ^ 63) \<le> sint (created c) + sint (max_age c)"
    using pos sint_time_range [of "created c"] by linarith
  have hi: "sint (created c) + sint (max_age c) < 2 ^ 63"
    using assms(2) sint_time_range [of "curtime_of t"] by linarith
  have "sint (created c + max_age c) = sint (created c) + sint (max_age c)"
    by (rule sint_add_no_overflow [OF lo hi])
  then have "is_expired (curtime_of t) c"
    using assms by (simp add: is_expired_def word_sless_alt)
  then show ?thesis by (simp add: uu_wget_hpkp_db_add_def)
qed

text \<open>
  The scenario of the spec: \<open>created = now - 10000\<close>, \<open>max_age = 100\<close>, here against a
  store that holds an entry for the host, in exclusive mode.
\<close>

theorem expired_candidate_rejected_witness:
  "0 <s max_age stale_entry \<and>
   sint (created stale_entry) + sint (max_age stale_entry) < sint (curtime_of 20000) \<and>
   uu_wget_hpkp_db_add 20000 demo_db stale_entry True = (WGET_HPKP_ENTRY_EXPIRED, demo_db)"
proof -
  have h1: "0 <s max_age stale_entry" by (simp add: stale_entry_def word_sless_alt)
  have h2: "sint (created stale_entry) + sint (max_age stale_entry) < sint (curtime_of 20000)"
    by (simp add: stale_entry_def curtime_of_def)
  show ?thesis using h1 h2 expired_candidate_rejected [OF h1 h2] by simp
qed

subsection \<open>Deletion\<close>

text \<open>
  C6 (amended). For every candidate whose host has a resident entry \<open>e\<close>, which is not
  expired (\<^verbatim>\<open>max_age > 0\<close> and \<^verbatim>\<open>created + max_age < now\<close> do not both hold, the sum taken
  in the integers), whose sum \<^verbatim>\<open>created + max_age\<close> does not exceed the largest \<^verbatim>\<open>time_t\<close>
  value, and which has \<^verbatim>\<open>max_age == 0\<close> or no pins, non-exclusive admission returns
  WAS_DELETED, removes the entry from the store and releases it; a lookup of the host
  then fails. The store keeps each entry under its own host.
\<close>

theorem delete_resident_entry:
  assumes "keyed_by_host db"
      and "wget_hashmap_get db (host c) = Some e"
      and "\<not> (0 < sint (max_age c) \<and>
              sint (created c) + sint (max_age c) < sint (curtime_of t))"
      and "sint (created c) + sint (max_age c) < 2 ^ 63"
      and "max_age c = 0 \<or> pins c = []"
  shows "fst (uu_wget_hpkp_db_add t db c False) = WGET_HPKP_WAS_DELETED \<and>
         wget_hashmap_get (snd (uu_wget_hpkp_db_add t db c False)) (host c) = None \<and>
         entries (snd (uu_wget_hpkp_db_add t db c False)) = AList.delete (host c) (entries db) \<and>
         released (snd (uu_wget_hpkp_db_add t db c False)) = e # released db"
proof -
  have ne: "\<not> is_expired (curtime_of t) c"
    using assms(3) by (simp add: is_expired_int [OF assms(4)])
  have h: "host e = host c" by (rule keyed_by_host_lookup [OF assms(1,2)])
  have r: "uu_wget_hpkp_db_add t db c False =
           (WGET_HPKP_WAS_DELETED, wget_hashmap_remove db (host c))"
    using assms(2,5) ne h by (auto simp: uu_wget_hpkp_db_add_def)
  have m: "map_of (entries db) (host c) = Some e"
    using assms(2) by (simp add: wget_hashmap_get_def)
  show ?thesis
    by (simp add: r wget_hashmap_remove_def wget_hashmap_get_def m delete_conv')
qed

text \<open>
  Two instances against \<open>demo_db\<close> at the clock value 2000: the scenario of the spec, the
  entry for \<^verbatim>\<open>example.com\<close> submitted again with \<^verbatim>\<open>max_age = 0\<close>, and the same entry
  submitted without pins.
\<close>

theorem delete_resident_entry_witness:
  "fst (uu_wget_hpkp_db_add 2000 demo_db (entry_1\<lparr>max_age := 0\<rparr>) False) = WGET_HPKP_WAS_DELETED \<and>
   wget_hashmap_get (snd (uu_wget_hpkp_db_add 2000 demo_db (entry_1\<lparr>max_age := 0\<rparr>) False))
     ''example.com'' = None \<and>
   released (snd (uu_wget_hpkp_db_add 2000 demo_db (entry_1\<lparr>max_age := 0\<rparr>) False)) = [entry_1] \<and>
   fst (uu_wget_hpkp_db_add 2000 demo_db (entry_1\<lparr>pins := []\<rparr>) False) = WGET_HPKP_WAS_DELETED \<and>
   wget_hashmap_get (snd (uu_wget_hpkp_db_add 2000 demo_db (entry_1\<lparr>pins := []\<rparr>) False))
     ''example.com'' = None"
proof -
  have h: "host (entry_1\<lparr>max_age := 0\<rparr>) = ''example.com''" by (simp add: entry_1_def)
  have g: "wget_hashmap_get demo_db (host (entry_1\<lparr>max_age := 0\<rparr>)) = Some entry_1"
    by (simp add: h demo_db_lookup_1)
  have ne: "\<not> (0 < sint (max_age (entry_1\<lparr>max_age := 0\<rparr>)) \<and>
       sint (created (entry_1\<lparr>max_age := 0\<rparr>)) + sint (max_age (entry_1\<lparr>max_age := 0\<rparr>))
         < sint (curtime_of 2000))"
    by simp
  have f: "sint (created (entry_1\<lparr>max_age := 0\<rparr>)) + sint (max_age (entry_1\<lparr>max_age := 0\<rparr>)) < 2 ^ 63"
    by (simp add: entry_1_def)
  have z: "max_age (entry_1\<lparr>max_age := 0\<rparr>) = 0 \<or> pins (entry_1\<lparr>max_age := 0\<rparr>) = []"
    by simp
  have h': "host (entry_1\<lparr>pins := []\<rparr>) = ''example.com''" by (simp add: entry_1_def)
  have g': "wget_hashmap_get demo_db (host (entry_1\<lparr>pins := []\<rparr>)) = Some entry_1"
    by (simp add: h' demo_db_lookup_1)
  have ne': "\<not> (0 < sint (max_age (entry_1\<lparr>pins := []\<rparr>)) \<and>
       sint (created (entry_1\<lparr>pins := []\<rparr>)) + sint (max_age (entry_1\<lparr>pins := []\<rparr>))
         < sint (curtime_of 2000))"
    by (simp add: entry_1_def curtime_of_def)
  have f': "sint (created (entry_1\<lparr>pins := []\<rparr>)) + sint (max_age (entry_1\<lparr>pins := []\<rparr>)) < 2 ^ 63"
    by (simp add: entry_1_def)
  have z': "max_age (entry_1\<lparr>pins := []\<rparr>) = 0 \<or> pins (entry_1\<lparr>pins := []\<rparr>) = []"
    by simp
  have r: "released demo_db = []" by (simp add: demo_db_def)
  show ?thesis
    using delete_resident_entry [OF keyed_demo_db g ne f z]
      delete_resident_entry [OF keyed_demo_db g' ne' f' z']
    by (simp add: h h' r)
qed

text \<open>
  The claim as stated (every candidate that is not expired) fails when the sum leaves the
  range of \<^verbatim>\<open>time_t\<close>. The candidate has no pins, \<^verbatim>\<open>created = 1500\<close> and
  \<^verbatim>\<open>max_age = LONG_MAX\<close>; at the clock value 2000 it is not expired, since
  \<^verbatim>\<open>created + max_age\<close> is far beyond \<open>now\<close>. The 64-bit sum of the code wraps to a negative
  value: admission returns ENTRY_EXPIRED and the resident entry stays.
\<close>

theorem delete_lost_on_overflow:
  "wget_hashmap_get demo_db (host far_entry) = Some entry_1 \<and>
   pins far_entry = [] \<and>
   sint (curtime_of 2000) \<le> sint (created far_entry) + sint (max_age far_entry) \<and>
   uu_wget_hpkp_db_add 2000 demo_db far_entry False = (WGET_HPKP_ENTRY_EXPIRED, demo_db)"
  by code_simp

subsection \<open>Exclusive admission\<close>







subsection \<open>The catch-all outcome\<close>

text \<open>
  C8 (amended). Admission returns ERROR exactly when the host of the candidate has no
  resident entry, the candidate has \<^verbatim>\<open>max_age == 0\<close> and it has at least two pins (a
  request to delete an entry that is not there); in every other case the branches before
  the catch-all decide the outcome.
\<close>

theorem error_outcome_iff:
  "fst (uu_wget_hpkp_db_add t db c excl) = WGET_HPKP_ERROR \<longleftrightarrow>
     (wget_hashmap_get db (host c) = None \<and> max_age c = 0 \<and> 2 \<le> length (pins c))"
  by (auto simp: uu_wget_hpkp_db_add_def is_expired_def Let_def)

theorem error_outcome_iff_witness:
  "fst (uu_wget_hpkp_db_add 2000 demo_db (entry_2\<lparr>host := ''example.net'', max_age := 0\<rparr>) True)
     = WGET_HPKP_ERROR"
proof -
  have "wget_hashmap_get demo_db (host (entry_2\<lparr>host := ''example.net'', max_age := 0\<rparr>)) = None"
    by (simp add: wget_hashmap_get_def demo_db_def)
  moreover have "2 \<le> length (pins (entry_2\<lparr>host := ''example.net'', max_age := 0\<rparr>))"
    by (simp add: entry_2_def)
  ultimately show ?thesis
    using error_outcome_iff [of 2000 demo_db "entry_2\<lparr>host := ''example.net'', max_age := 0\<rparr>" True]
    by simp
qed

text \<open>
  The claim as stated (ERROR is unreachable) fails on the empty store, for a candidate
  with two pins and \<^verbatim>\<open>max_age = 0\<close>.
\<close>

theorem error_outcome_reachable:
  "fst (uu_wget_hpkp_db_add 2000 wget_hpkp_db_init (entry_1\<lparr>max_age := 0\<rparr>) False) = WGET_HPKP_ERROR"
  by (simp add: uu_wget_hpkp_db_add_def is_expired_def wget_hashmap_get_def wget_hpkp_db_init_def
      entry_1_def)

subsection \<open>The public entry point\<close>

lemma put_base64_fields:
  "created (snd (uu_wget_hpkp_db_put_base64_spki x h b)) = created h \<and>
   max_age (snd (uu_wget_hpkp_db_put_base64_spki x h b)) = max_age h \<and>
   host (snd (uu_wget_hpkp_db_put_base64_spki x h b)) = host h \<and>
   include_subdomains (snd (uu_wget_hpkp_db_put_base64_spki x h b)) = include_subdomains h \<and>
   fst (uu_wget_hpkp_db_put_base64_spki x h b) = 0"
  by (simp add: uu_wget_hpkp_db_put_base64_spki_def Let_def)

lemma browse_put_fields:
  "created (snd (wget_vector_browse bs (uu_wget_hpkp_db_put_base64_spki x) h)) = created h \<and>
   max_age (snd (wget_vector_browse bs (uu_wget_hpkp_db_put_base64_spki x) h)) = max_age h \<and>
   host (snd (wget_vector_browse bs (uu_wget_hpkp_db_put_base64_spki x) h)) = host h \<and>
   include_subdomains (snd (wget_vector_browse bs (uu_wget_hpkp_db_put_base64_spki x) h)) =
     include_subdomains h"
proof (induction bs arbitrary: h)
  case Nil
  show ?case by simp
next
  case (Cons b bs)
  obtain r h' where p: "uu_wget_hpkp_db_put_base64_spki x h b = (r, h')" by fastforce
  with put_base64_fields [of x h b] have "r = 0" and f: "created h' = created h"
    "max_age h' = max_age h" "host h' = host h" "include_subdomains h' = include_subdomains h"
    by simp_all
  then show ?case using Cons.IH [of h'] p by simp
qed

text \<open>
  C10 (amended). \<^verbatim>\<open>wget_hpkp_db_add\<close> stamps the candidate with the current time. When
  the clock yields the same value \<open>t\<close> for the stamp and for the admission check, and
  \<open>now + max_age\<close> does not exceed the largest \<^verbatim>\<open>time_t\<close>, the call does not return
  ENTRY_EXPIRED, for every store, host and pin list.
\<close>

theorem fresh_stamp_not_expired:
  assumes "sint (curtime_of t) + sint m < 2 ^ 63"
  shows "fst (wget_hpkp_db_add x t t (Some db) (Some h) m i (Some b64s)) \<noteq> WGET_HPKP_ENTRY_EXPIRED"
proof -
  define cand where "cand = snd (wget_vector_browse b64s (uu_wget_hpkp_db_put_base64_spki x)
                         (wget_hpkp_new h (curtime_of t) m i))"
  have c: "created cand = curtime_of t" and ma: "max_age cand = m"
    using browse_put_fields [of b64s x "wget_hpkp_new h (curtime_of t) m i"]
    by (simp_all add: cand_def wget_hpkp_new_def)
  have ne: "\<not> is_expired (curtime_of t) cand"
  proof
    assume e: "is_expired (curtime_of t) cand"
    then have pos: "0 < sint m" by (simp add: is_expired_def ma word_sless_alt)
    have lo: "- (2 ^ 63) \<le> sint (curtime_of t) + sint m"
      using pos sint_time_range [of "curtime_of t"] by linarith
    have "sint (curtime_of t + m) = sint (curtime_of t) + sint m"
      by (rule sint_add_no_overflow [OF lo assms])
    with e pos show False by (simp add: is_expired_def c ma word_sless_alt)
  qed
  have "fst (wget_hpkp_db_add x t t (Some db) (Some h) m i (Some b64s)) =
        fst (uu_wget_hpkp_db_add t db cand False)"
    by (simp add: wget_hpkp_db_add_def cand_def Let_def split: prod.splits)
  then show ?thesis using ne by (simp add: add_expired_only_if)
qed

theorem fresh_stamp_not_expired_witness:
  "sint (curtime_of 2000) + sint (5000 :: time_t) < 2 ^ 63 \<and>
   fst (wget_hpkp_db_add demo_ext 2000 2000 (Some wget_hpkp_db_init) (Some ''example.com'')
          5000 0 (Some [rfc4648_encode pin_A, rfc4648_encode pin_B])) \<noteq> WGET_HPKP_ENTRY_EXPIRED"
proof -
  have h: "sint (curtime_of 2000) + sint (5000 :: time_t) < 2 ^ 63"
    by (simp add: curtime_of_def)
  show ?thesis using h fresh_stamp_not_expired [OF h] by simp
qed

text \<open>
  The claim as stated (for every \<^verbatim>\<open>max_age\<close>) fails where the sum leaves the range of
  \<^verbatim>\<open>time_t\<close>: with the clock at 1 and \<^verbatim>\<open>max_age = LONG_MAX\<close> the sum wraps to a negative
  value and the fresh candidate is rejected as expired.
\<close>

theorem fresh_stamp_expired_on_overflow:
  "fst (wget_hpkp_db_add demo_ext 1 1 (Some wget_hpkp_db_init) (Some ''example.com'')
          0x7FFFFFFFFFFFFFFF 0 (Some [rfc4648_encode pin_A, rfc4648_encode pin_B]))
     = WGET_HPKP_ENTRY_EXPIRED"
  by code_simp

section \<open>Properties of the file format\<close>

subsection \<open>Numbers\<close>

lemma digit_cases: "d < 10 \<Longrightarrow> d \<in> {0, 1, 2, 3, 4, 5, 6, 7, 8, 9 :: nat}"
  by auto

lemma digit_char_props:
  assumes "d < 10"
  shows "isdigit (digit_char d) \<and> digit_val (digit_char d) = int d \<and>
         (digit_char d = CHR ''0'' \<longleftrightarrow> d = 0)"
  using digit_cases [OF assms]
  by (auto simp: digit_char_def digit_val_def isdigit_def)

lemma isdigit_not_space: "isdigit c \<Longrightarrow> \<not> c_isspace c \<and> \<not> isspace c \<and> c \<noteq> CHR 0x00 \<and> c \<noteq> NL"
  by (auto simp: isdigit_def c_isspace_def isspace_def)

lemma decimal_digits: "0 \<le> n \<Longrightarrow> list_all isdigit (decimal n)"
proof (induction n rule: decimal.induct)
  case (1 n)
  show ?case
  proof (cases "n < 10")
    case True
    with 1(2) have "nat n < 10" by simp
    then show ?thesis using True digit_char_props by (subst decimal.simps) simp
  next
    case False
    then have "0 \<le> n div 10" by simp
    with 1(1) False have ih: "list_all isdigit (decimal (n div 10))" by simp
    have "nat (n mod 10) < 10" by simp
    then have "isdigit (digit_char (nat (n mod 10)))" using digit_char_props by blast
    with ih False show ?thesis by (subst decimal.simps) simp
  qed
qed

lemma decimal_nonempty: "decimal n \<noteq> []"
  by (subst decimal.simps) simp

lemma digits_value_snoc: "digits_value (ds @ [c]) = 10 * digits_value ds + digit_val c"
  by (simp add: digits_value_def)

lemma digits_value_decimal: "0 \<le> n \<Longrightarrow> digits_value (decimal n) = n"
proof (induction n rule: decimal.induct)
  case (1 n)
  show ?case
  proof (cases "n < 10")
    case True
    with 1(2) have "nat n < 10" by simp
    then have "digit_val (digit_char (nat n)) = int (nat n)" using digit_char_props by blast
    then show ?thesis using True 1(2) by (subst decimal.simps) (simp add: digits_value_def)
  next
    case False
    then have "0 \<le> n div 10" by simp
    with 1(1) False have ih: "digits_value (decimal (n div 10)) = n div 10" by simp
    have "nat (n mod 10) < 10" by simp
    then have "digit_val (digit_char (nat (n mod 10))) = int (nat (n mod 10))"
      using digit_char_props by blast
    then have "digit_val (digit_char (nat (n mod 10))) = n mod 10" by simp
    with ih False show ?thesis by (subst decimal.simps) (simp add: digits_value_snoc)
  qed
qed

lemma decimal_hd_zero: "0 \<le> n \<Longrightarrow> hd (decimal n) = CHR ''0'' \<Longrightarrow> n = 0"
proof (induction n rule: decimal.induct)
  case (1 n)
  show ?case
  proof (cases "n < 10")
    case True
    with 1(2) have lt: "nat n < 10" by simp
    from 1(3) True have "digit_char (nat n) = CHR ''0''" by (subst (asm) decimal.simps) simp
    with digit_char_props [OF lt] have "nat n = 0" by blast
    with 1(2) show ?thesis by simp
  next
    case False
    then have nn: "0 \<le> n div 10" by simp
    from 1(3) False have "hd (decimal (n div 10)) = CHR ''0''"
      by (subst (asm) decimal.simps) (simp add: decimal_nonempty)
    with 1(1) False nn have "n div 10 = 0" by simp
    with False 1(2) show ?thesis by simp
  qed
qed

lemma decimal_zero: "decimal 0 = ''0''"
  by (subst decimal.simps) (simp add: digit_char_def)

lemma decimal_one: "decimal 1 = ''1''"
  by (subst decimal.simps) (simp add: digit_char_def)

subsection \<open>Scanning\<close>

lemma scan_digits_app:
  assumes "list_all isdigit ds" "length ds \<le> n" "rest = [] \<or> isspace (hd rest)"
  shows "scan_digits n (ds @ rest) acc = Some (acc @ ds, rest)"
  using assms
proof (induction ds arbitrary: n acc)
  case Nil
  show ?case
  proof (cases n)
    case 0 then show ?thesis by simp
  next
    case (Suc m)
    show ?thesis
    proof (cases rest)
      case Nil then show ?thesis using Suc by simp
    next
      case (Cons c cs)
      with Nil.prems(3) have "isspace c" by simp
      moreover then have "\<not> isdigit c" using isdigit_not_space by blast
      ultimately show ?thesis using Suc Cons by simp
    qed
  qed
next
  case (Cons d ds)
  then obtain m where n: "n = Suc m" and m: "length ds \<le> m" by (cases n) auto
  from Cons.prems(1) have d: "isdigit d" and ds: "list_all isdigit ds" by simp_all
  show ?case using Cons.IH [OF ds m Cons.prems(3), of "acc @ [d]"] d n by simp
qed

lemma parse_number_decimal:
  assumes "0 \<le> n" "n < 2 ^ 64" "length (decimal n) \<le> len" "rest = [] \<or> isspace (hd rest)"
  shows "uu_parse_number_unsigned (decimal n @ rest) len out_size =
           (if out_size < sizeof_unsigned_long then Overrun else Parsed (word_of_int n, rest))"
proof -
  have s: "scan_digits len (decimal n @ rest) [] = Some (decimal n, rest)"
    using scan_digits_app [OF decimal_digits [OF assms(1)] assms(3,4), of "[]"] by simp
  have z: "\<not> (hd (decimal n) = CHR ''0'' \<and> 1 < length (decimal n))"
  proof
    assume a: "hd (decimal n) = CHR ''0'' \<and> 1 < length (decimal n)"
    then have "n = 0" using decimal_hd_zero assms(1) by blast
    with a show False by (simp add: decimal_zero)
  qed
  show ?thesis
    using s z assms(1,2)
    by (simp add: uu_parse_number_unsigned_def decimal_nonempty strtoul_def digits_value_decimal)
qed

lemma scan_word_app:
  assumes "w \<noteq> []" "list_all (\<lambda>c. \<not> c_isspace c) w" "rest = [] \<or> c_isspace (hd rest)"
  shows "scan_word (w @ rest) = Some (w, rest)"
proof -
  from assms(1,2) obtain c cs where w: "w = c # cs" and c: "\<not> c_isspace c"
    by (cases w) auto
  have d: "dropWhile c_isspace (w @ rest) = w @ rest" using w c by simp
  have t: "takeWhile (\<lambda>c. \<not> c_isspace c) (w @ rest) = w"
    using assms(2,3) by (cases rest) (auto simp: takeWhile_append list_all_iff)
  have r: "dropWhile (\<lambda>c. \<not> c_isspace c) (w @ rest) = rest"
    using assms(2,3) by (cases rest) (auto simp: dropWhile_append list_all_iff)
  show ?thesis using assms(1) by (simp add: scan_word_def d t r)
qed

lemma scan_word_skip: "c_isspace c \<Longrightarrow> scan_word (c # s) = scan_word s"
  by (simp add: scan_word_def)

lemma c_str_id: "list_all (\<lambda>c. c \<noteq> CHR 0x00) l \<Longrightarrow> c_str l = l"
  by (simp add: c_str_def list_all_iff)

subsection \<open>Reading back a saved record\<close>

lemma next_token_tab_digits:
  assumes "ds \<noteq> []" "list_all isdigit ds"
  shows "uu_next_token (TAB # ds @ r) = Some (ds @ r)"
proof -
  from assms obtain d ds' where ds: "ds = d # ds'" and d: "isdigit d" by (cases ds) auto
  then have "\<not> isspace d" using isdigit_not_space by blast
  then show ?thesis using ds by (simp add: uu_next_token_def isspace_def)
qed

lemma next_token_decimal: "0 \<le> n \<Longrightarrow> uu_next_token (TAB # decimal n @ r) = Some (decimal n @ r)"
  by (rule next_token_tab_digits [OF decimal_nonempty decimal_digits])

lemma isspace_TAB: "isspace TAB" "c_isspace TAB"
  by (simp_all add: isspace_def c_isspace_def)

lemma parse_hostname_host:
  assumes "storable_host x k"
  shows "uu_parse_hostname (k @ TAB # r) = Some (k, TAB # r)"
proof -
  have w: "list_all (\<lambda>c. \<not> c_isspace c) k" using assms by (auto simp: storable_host_def list_all_iff)
  have "scan_word (k @ TAB # r) = Some (k, TAB # r)"
    using assms w by (intro scan_word_app) (auto simp: storable_host_def c_isspace_def)
  then show ?thesis by (simp add: uu_parse_hostname_def isspace_TAB)
qed

lemma parse_digit_flag:
  assumes "i = 0 \<or> i = (1 :: 8 word)"
  shows "uu_parse_digit (decimal (uint (scast i :: 32 word)) @ r) = Some (i, r)"
  using assms by (auto simp: decimal_zero decimal_one uu_parse_digit_def isdigit_def)

lemma flag_decimal:
  assumes "i = 0 \<or> i = (1 :: 8 word)"
  shows "0 \<le> uint (scast i :: 32 word)"
  by simp

text \<open>
  The host line that save writes for an entry with a valid host and a flag of 0 or 1:
  its first four fields parse, and the store of the fifth overruns \<^verbatim>\<open>num_pins\<close>.
\<close>

lemma parse_host_line_host_line:
  assumes "storable_host x k"
      and "include_subdomains e = 0 \<or> include_subdomains e = 1"
  shows "uu_wget_hpkp_parse_host_line x (host_line k e) (length (host_line k e)) = Overrun"
proof -
  define dc where "dc = decimal (uint (created e))"
  define dm where "dm = decimal (uint (max_age e))"
  define di where "di = decimal (uint (scast (include_subdomains e) :: 32 word))"
  define n :: "32 word" where "n = of_nat (length (pins e))"
  define dn where "dn = decimal (uint n)"
  define len where "len = length (host_line k e)"
  have line: "host_line k e = k @ TAB # dc @ TAB # dm @ TAB # di @ TAB # dn"
    by (simp add: host_line_def dc_def dm_def di_def dn_def n_def)
  have lens: "length dc \<le> len" "length dm \<le> len" "length dn \<le> len"
    by (simp_all add: len_def line)
  have b64: "uint (created e) < 2 ^ 64" "uint (max_age e) < 2 ^ 64"
    using uint_lt2p [of "created e"] uint_lt2p [of "max_age e"] by simp_all
  have b32: "uint n < 2 ^ 64"
    using uint_lt2p [of n] by simp
  have p1: "uu_parse_hostname (host_line k e) = Some (k, TAB # dc @ TAB # dm @ TAB # di @ TAB # dn)"
    unfolding line by (rule parse_hostname_host [OF assms(1)])
  have t2: "uu_next_token (TAB # dc @ TAB # dm @ TAB # di @ TAB # dn) = Some (dc @ TAB # dm @ TAB # di @ TAB # dn)"
    unfolding dc_def by (rule next_token_decimal) simp
  have p3: "uu_parse_number_unsigned (dc @ TAB # dm @ TAB # di @ TAB # dn) len sizeof_time_t =
            Parsed (created e, TAB # dm @ TAB # di @ TAB # dn)"
    using parse_number_decimal [of "uint (created e)" len "TAB # dm @ TAB # di @ TAB # dn" sizeof_time_t]
      lens b64
    by (simp add: dc_def isspace_TAB sizeof_time_t_def sizeof_unsigned_long_def)
  have t4: "uu_next_token (TAB # dm @ TAB # di @ TAB # dn) = Some (dm @ TAB # di @ TAB # dn)"
    unfolding dm_def by (rule next_token_decimal) simp
  have p5: "uu_parse_number_unsigned (dm @ TAB # di @ TAB # dn) len sizeof_time_t =
            Parsed (max_age e, TAB # di @ TAB # dn)"
    using parse_number_decimal [of "uint (max_age e)" len "TAB # di @ TAB # dn" sizeof_time_t]
      lens b64
    by (simp add: dm_def isspace_TAB sizeof_time_t_def sizeof_unsigned_long_def)
  have t6: "uu_next_token (TAB # di @ TAB # dn) = Some (di @ TAB # dn)"
    unfolding di_def by (rule next_token_decimal) simp
  have p7: "uu_parse_digit (di @ TAB # dn) = Some (include_subdomains e, TAB # dn)"
    unfolding di_def by (rule parse_digit_flag [OF assms(2)])
  have le1: "\<not> 1 < include_subdomains e" using assms(2) by auto
  have t8: "uu_next_token (TAB # dn) = Some dn"
    using next_token_decimal [of "uint n" "[]"] by (simp add: dn_def)
  have p9: "uu_parse_number_unsigned dn len sizeof_unsigned_int = Overrun"
    using parse_number_decimal [of "uint n" len "[]" sizeof_unsigned_int] lens b32
    by (simp add: dn_def sizeof_unsigned_int_def sizeof_unsigned_long_def)
  have ir: "wget_iri_parse x k = Some False" using assms(1) by (simp add: storable_host_def)
  show ?thesis
    unfolding uu_wget_hpkp_parse_host_line_def len_def [symmetric]
    by (simp add: p1 ir t2 p3 t4 p5 t6 p7 le1 t8 p9)
qed

lemma first_32_bytes: "length p = 32 \<Longrightarrow> map ((!) p) [0..<32] = p"
  using map_nth [of p] by simp

lemma pin_line_32:
  assumes "length p = 32"
  shows "pin_line x p = ''sha-256'' @ TAB # wget_base64_encode_alloc x p"
  unfolding pin_line_def first_32_bytes [OF assms] by simp

lemma decimal_no_nul: "0 \<le> n \<Longrightarrow> list_all (\<lambda>c. c \<noteq> CHR 0x00) (decimal n)"
  using decimal_digits [of n] isdigit_not_space by (auto simp: list_all_iff)

lemma host_line_no_nul:
  assumes "storable_host x k"
  shows "list_all (\<lambda>c. c \<noteq> CHR 0x00) (host_line k e)"
proof -
  have "list_all (\<lambda>c. c \<noteq> CHR 0x00) k"
    using assms by (auto simp: storable_host_def list_all_iff)
  then show ?thesis by (simp add: host_line_def decimal_no_nul)
qed

lemma read_record_record_lines:
  assumes "storable_entry x kv"
  shows "read_record x (host_line (fst kv) (snd kv)) ls = Overrun"
proof -
  have st: "storable_host x (fst kv)"
    "include_subdomains (snd kv) = 0 \<or> include_subdomains (snd kv) = 1"
    using assms by (simp_all add: storable_entry_def)
  have nz: "list_all (\<lambda>c. c \<noteq> CHR 0x00) (host_line (fst kv) (snd kv))"
    by (rule host_line_no_nul [OF st(1)])
  show ?thesis
    by (simp add: read_record_def c_str_id [OF nz] parse_host_line_host_line [OF st])
qed

lemma host_line_not_comment:
  assumes "storable_host x k"
  shows "is_comment_line (host_line k e) = False"
proof -
  from assms obtain c cs where k: "k = c # cs" and c: "c \<noteq> CHR ''#''" "c \<noteq> CHR 0x00"
    by (cases k) (auto simp: storable_host_def)
  then show ?thesis by (simp add: host_line_def c_str_def is_comment_line_def)
qed

text \<open>
  The loop, once it has read the version line, does not get past the first record that
  save wrote.
\<close>

lemma load_loop_record:
  assumes "storable_entry x kv" "version s \<noteq> 0"
  shows "load_loop x clock (record_lines x kv @ rest) s = Undefined_behaviour"
proof -
  have st: "storable_host x (fst kv)" using assms(1) by (simp add: storable_entry_def)
  show ?thesis
    using assms(2)
    by (simp add: record_lines_def read_record_record_lines [OF assms(1)]
        host_line_not_comment [OF st])
qed

subsection \<open>What save writes\<close>

lemma vector_browse_cb_text:
  "wget_vector_browse ps (uu_vector_browse_cb x) out = (0, out @ unlines (map (pin_line x) ps))"
proof (induction ps arbitrary: out)
  case Nil
  show ?case by (simp add: unlines_def)
next
  case (Cons p ps)
  have "uu_vector_browse_cb x out p = (0, out @ pin_line x p @ [NL])"
    by (simp add: uu_vector_browse_cb_def pin_line_def)
  then show ?case by (simp add: Cons.IH unlines_def)
qed

lemma hashtable_browse_cb_text:
  assumes "0 < length (pins e)" "length (pins e) < 2 ^ 32"
  shows "uu_hashtable_browse_cb x bctx k e =
           (0, bctx\<lparr>fp := fp bctx @ unlines (record_lines x (k, e)),
                    written_pins := written_pins bctx + of_nat (length (pins e))\<rparr>)"
proof -
  have "unat (of_nat (length (pins e)) :: 32 word) = length (pins e)"
    using assms(2) by (simp add: unat_of_nat take_bit_nat_eq_self)
  then have pos: "0 < (of_nat (length (pins e)) :: 32 word)"
    using assms(1) by (simp add: word_less_nat_alt)
  have line: "k @ [TAB] @ decimal (uint (created e)) @ [TAB] @ decimal (uint (max_age e)) @ [TAB] @
        decimal (uint (scast (include_subdomains e) :: 32 word)) @ [TAB] @
        decimal (uint (of_nat (length (pins e)) :: 32 word)) @ [NL] = host_line k e @ [NL]"
    by (simp add: host_line_def)
  show ?thesis
    unfolding uu_hashtable_browse_cb_def Let_def line
    using pos by (simp add: vector_browse_cb_text record_lines_def unlines_def)
qed

lemma hashmap_browse_text:
  assumes "list_all (\<lambda>kv. 0 < length (pins (snd kv)) \<and> length (pins (snd kv)) < 2 ^ 32) kvs"
  shows "wget_hashmap_browse kvs (uu_hashtable_browse_cb x) bctx =
           bctx\<lparr>fp := fp bctx @ unlines (concat (map (record_lines x) kvs)),
                written_pins := written_pins bctx + of_nat (pin_count kvs)\<rparr>"
  using assms
proof (induction kvs arbitrary: bctx)
  case Nil
  show ?case by (simp add: unlines_def pin_count_def)
next
  case (Cons kv kvs)
  obtain k e where kv: "kv = (k, e)" by (cases kv)
  from Cons.prems kv have a: "0 < length (pins e)" "length (pins e) < 2 ^ 32"
    and b: "list_all (\<lambda>kv. 0 < length (pins (snd kv)) \<and> length (pins (snd kv)) < 2 ^ 32) kvs"
    by simp_all
  show ?case
    by (simp add: kv hashtable_browse_cb_text [OF a] Cons.IH [OF b] unlines_def pin_count_def)
qed

subsection \<open>Lines\<close>

lemma split_lines_line:
  assumes "NL \<notin> set l"
  shows "split_lines (l @ NL # r) cur = (cur @ l) # split_lines r []"
  using assms by (induction l arbitrary: cur) auto

lemma file_lines_unlines:
  assumes "list_all (\<lambda>l. NL \<notin> set l) ls"
  shows "file_lines (unlines ls @ r) = ls @ file_lines r"
  using assms unfolding file_lines_def unlines_def
proof (induction ls)
  case Nil show ?case by simp
next
  case (Cons l ls)
  then have "NL \<notin> set l" by simp
  from split_lines_line [OF this, of _ "[]"] Cons show ?case by simp
qed

lemma file_header_lines: "file_header = unlines header_lines"
  by (simp add: file_header_def unlines_def header_lines_def)

lemma header_lines_no_NL: "list_all (\<lambda>l. NL \<notin> set l) header_lines"
  by (simp add: header_lines_def)

lemma load_loop_header:
  assumes "version s = 0"
  shows "load_loop x clock (header_lines @ ls) s = load_loop x clock ls (s\<lparr>version := 1\<rparr>)"
  using assms by (simp add: header_lines_def c_str_def is_comment_line_def)

subsection \<open>Loading a saved file\<close>

lemma record_lines_no_NL:
  assumes "storable_entry x kv"
  shows "list_all (\<lambda>l. NL \<notin> set l) (record_lines x kv)"
proof -
  have k: "\<forall>c\<in>set (fst kv). c \<noteq> NL"
    using assms by (auto simp: storable_entry_def storable_host_def list_all_iff c_isspace_def)
  have d: "\<And>n. 0 \<le> n \<Longrightarrow> NL \<notin> set (decimal n)"
    using decimal_digits isdigit_not_space by (fastforce simp: list_all_iff)
  have h: "NL \<notin> set (host_line (fst kv) (snd kv))"
    using k d by (auto simp: host_line_def)
  have p: "\<And>q. q \<in> set (pins (snd kv)) \<Longrightarrow> NL \<notin> set (pin_line x q)"
  proof -
    fix q assume "q \<in> set (pins (snd kv))"
    then have ok: "codec_ok x q" using assms by (auto simp: storable_entry_def list_all_iff)
    then have "\<forall>c\<in>set (wget_base64_encode_alloc x q). c \<noteq> NL"
      by (auto simp: codec_ok_def list_all_iff c_isspace_def)
    moreover have "length q = 32" using ok by (simp add: codec_ok_def)
    ultimately show "NL \<notin> set (pin_line x q)" by (auto simp: pin_line_32)
  qed
  show ?thesis using h p by (simp add: record_lines_def list_all_iff)
qed

lemma records_no_NL:
  assumes "list_all (storable_entry x) kvs"
  shows "list_all (\<lambda>l. NL \<notin> set l) (concat (map (record_lines x) kvs))"
  using assms record_lines_no_NL by (induction kvs) (auto simp: list_all_iff)

lemma split_lines_nil: "file_lines [] = []"
  by (simp add: file_lines_def)

lemma file_lines_saved:
  assumes "list_all (storable_entry x) kvs"
  shows "file_lines (file_header @ unlines (concat (map (record_lines x) kvs))) =
         header_lines @ concat (map (record_lines x) kvs)"
proof -
  have "file_header @ unlines (concat (map (record_lines x) kvs)) =
        unlines (header_lines @ concat (map (record_lines x) kvs)) @ []"
    by (simp add: file_header_lines unlines_def)
  moreover have "list_all (\<lambda>l. NL \<notin> set l) (header_lines @ concat (map (record_lines x) kvs))"
    using header_lines_no_NL records_no_NL [OF assms] by simp
  ultimately show ?thesis
    using file_lines_unlines [of "header_lines @ concat (map (record_lines x) kvs)" "[]"]
    by (simp add: split_lines_nil)
qed

lemma fopen_w_not_other:
  assumes "fopen_w fs fname = Some target"
  shows "stat fs fname = None \<or> stat fs fname = Some S_IFREG \<or> stat fs fname = Some S_IFLNK"
  using assms
  by (auto simp: fopen_w_def open_target_def stat_def split: if_splits option.splits node.splits)

lemma fopen_r_after_write:
  assumes "fopen_w fs fname = Some target"
  shows "fopen_r (fclose_w fs target content) fname = Some content"
  using assms
  by (auto simp: fopen_w_def fopen_r_def open_target_def fclose_w_def
      split: if_splits option.splits node.splits)

lemma save_text:
  assumes "fname \<noteq> []" "fopen_w fs fname = Some target" "entries db \<noteq> []"
      and "list_all (storable_entry x) (entries db)"
  shows "wget_hpkp_db_save x fs (Some fname) (Some db) =
           (sint (of_nat (pin_count (entries db)) :: 32 word),
            fclose_w fs target (file_header @ unlines (concat (map (record_lines x) (entries db)))))"
proof -
  have "list_all (\<lambda>kv. 0 < length (pins (snd kv)) \<and> length (pins (snd kv)) < 2 ^ 32) (entries db)"
    using assms(4) by (auto simp: list_all_iff storable_entry_def)
  note b = hashmap_browse_text [OF this]
  from fopen_w_not_other [OF assms(2)] show ?thesis
  proof (elim disjE)
    assume "stat fs fname = None"
    then show ?thesis
      using assms(1,3) by (simp add: wget_hpkp_db_save_def Let_def assms(2) b wget_hashmap_size_def)
  next
    assume "stat fs fname = Some S_IFREG"
    then show ?thesis
      using assms(1,3) by (simp add: wget_hpkp_db_save_def Let_def assms(2) b wget_hashmap_size_def)
  next
    assume "stat fs fname = Some S_IFLNK"
    then show ?thesis
      using assms(1,3) by (simp add: wget_hpkp_db_save_def Let_def assms(2) b wget_hashmap_size_def)
  qed
qed

lemma load_saved:
  assumes "fname \<noteq> []" "fopen_w fs fname = Some target"
      and "list_all (storable_entry x) kvs" "kvs \<noteq> []"
  shows "wget_hpkp_db_load x clock
           (fclose_w fs target (file_header @ unlines (concat (map (record_lines x) kvs))))
           (Some fname) (Some db) = Undefined_behaviour"
proof -
  from assms(4) obtain kv rest where kvs: "kvs = kv # rest" by (cases kvs) auto
  have st: "storable_entry x kv" using assms(3) by (simp add: kvs)
  define s0 where "s0 = load_start db"
  define s1 where "s1 = s0\<lparr>version := 1\<rparr>"
  have h: "load_loop x clock (header_lines @ concat (map (record_lines x) kvs)) s0 =
           load_loop x clock (concat (map (record_lines x) kvs)) s1"
    unfolding s1_def by (rule load_loop_header) (simp add: s0_def load_start_def)
  have v: "version s1 \<noteq> 0" by (simp add: s1_def)
  have r: "load_loop x clock (concat (map (record_lines x) kvs)) s1 = Undefined_behaviour"
    using load_loop_record [where clock = clock, OF st v, of "concat (map (record_lines x) rest)"]
    by (simp add: kvs)
  show ?thesis
    using assms(1)
    by (simp add: wget_hpkp_db_load_def fopen_r_after_write [OF assms(2)] file_lines_saved [OF assms(3)]
        h [unfolded s0_def] r)
qed

lemma storable_demo_1: "storable_entry demo_ext (''example.com'', entry_1)"
  by code_simp

lemma storable_demo_2: "storable_entry demo_ext (''www.example.org'', entry_2)"
  by code_simp

subsection \<open>Round trip\<close>

text \<open>
  C2. The claim: a store holds exactly two entries that are not expired, with the pins
  \<open>A\<close>, \<open>B\<close> and \<open>C\<close>, \<open>D\<close>; saving it returns 4, and loading the saved file into a freshly
  initialised store yields both entries with the same fields and pins. The comment of
  \<^verbatim>\<open>wget_hpkp_db_load\<close> promises as much: a file written by \<^verbatim>\<open>wget_hpkp_db_save\<close> "is
  guaranteed to be correctly parsed by this function". The save half holds. The load half
  is lost at the first host line: the loader passes the address of its
  \<^verbatim>\<open>unsigned int num_pins\<close> to \<^verbatim>\<open>__wget_hpkp_parse_host_line\<close>, which casts it to
  \<^verbatim>\<open>unsigned long int *\<close>, and \<^verbatim>\<open>__parse_number_unsigned\<close> stores 8 bytes there. Evaluated
  for the store \<open>demo_db\<close>, saved to a fresh path and loaded with a clock that starts at
  2000 (both entries are storable and neither is expired then): the save returns 4, and
  the load overruns \<^verbatim>\<open>num_pins\<close> on the line of the first entry, so that it has no defined
  result.
\<close>

theorem saved_store_load_undefined:
  "list_all (storable_entry demo_ext) (entries demo_db) \<and>
   sint (curtime_of (demo_clock 0)) \<le> sint (created entry_1) + sint (max_age entry_1) \<and>
   sint (curtime_of (demo_clock 1)) \<le> sint (created entry_2) + sint (max_age entry_2) \<and>
   fst (wget_hpkp_db_save demo_ext empty_fs (Some ''/tmp/hpkp'') (Some demo_db)) = 4 \<and>
   wget_hpkp_db_load demo_ext demo_clock
     (snd (wget_hpkp_db_save demo_ext empty_fs (Some ''/tmp/hpkp'') (Some demo_db)))
     (Some ''/tmp/hpkp'') (Some wget_hpkp_db_init) = Undefined_behaviour"
proof -
  have st: "list_all (storable_entry demo_ext) (entries demo_db)"
    by (simp add: demo_db_def storable_demo_1 storable_demo_2)
  have n1: "sint (curtime_of (demo_clock 0)) \<le> sint (created entry_1) + sint (max_age entry_1)"
    by code_simp
  have n2: "sint (curtime_of (demo_clock 1)) \<le> sint (created entry_2) + sint (max_age entry_2)"
    by code_simp
  have f: "fopen_w empty_fs ''/tmp/hpkp'' = Some ''/tmp/hpkp''"
    by (simp add: fopen_w_def open_target_def empty_fs_def)
  have e: "''/tmp/hpkp'' \<noteq> []" by simp
  have ne: "entries demo_db \<noteq> []" by (simp add: demo_db_def)
  have pc: "pin_count (entries demo_db) = 4"
    by (simp add: pin_count_def demo_db_def entry_1_def entry_2_def)
  note sv = save_text [OF e f ne st]
  note ld = load_saved [where clock = demo_clock and db = wget_hpkp_db_init, OF e f st ne]
  show ?thesis
    using st n1 n2 by (simp add: sv pc ld)
qed

section \<open>Properties of loading\<close>

subsection \<open>The store of the pin count\<close>

text \<open>
  The defect in general: the last field of a host line is stored through a pointer to
  \<^verbatim>\<open>unsigned long\<close> into an \<^verbatim>\<open>unsigned int\<close>, so a host line never parses without the
  overrun. A load that returns without it has admitted no record: it returns the store
  it was given.
\<close>

lemma parse_number_small:
  assumes "out_size < sizeof_unsigned_long"
  shows "uu_parse_number_unsigned str len out_size \<noteq> Parsed r"
  using assms by (simp add: uu_parse_number_unsigned_def split: option.splits prod.splits)

lemma parse_host_line_never_parsed:
  "uu_wget_hpkp_parse_host_line x line len \<noteq> Parsed r"
proof -
  have n: "\<And>s. uu_parse_number_unsigned s len sizeof_unsigned_int \<noteq> Parsed (a, b)" for a b
    by (rule parse_number_small) (simp add: sizeof_unsigned_int_def sizeof_unsigned_long_def)
  show ?thesis
    unfolding uu_wget_hpkp_parse_host_line_def
    using n by (simp split: option.splits prod.splits parsed.splits)
qed

lemma read_record_never_parsed:
  "read_record x l ls \<noteq> Parsed r"
  using parse_host_line_never_parsed [of x "c_str l" "length l"]
  by (simp add: read_record_def split: parsed.splits prod.splits)

lemma load_loop_returns_store:
  "load_loop x clock ls s = Returns s' \<Longrightarrow> lv_db s' = lv_db s"
proof (induction x clock ls s rule: load_loop.induct)
  case (1 x clock s)
  then show ?case by simp
next
  case (2 x clock l ls s)
  show ?case
  proof (cases "is_comment_line l")
    case True
    then show ?thesis using "2.IH"(1) "2.prems" by simp
  next
    case False
    note nc = this
    show ?thesis
    proof (cases "version s = 0")
      case True
      show ?thesis
      proof (cases "c_str l \<noteq> ''version 1''")
        case True
        then show ?thesis using nc \<open>version s = 0\<close> "2.prems" by auto
      next
        case False
        then have "lv_db s' = lv_db (s\<lparr>version := 1\<rparr>)"
          using nc \<open>version s = 0\<close> "2.IH"(2) "2.prems" by simp
        then show ?thesis by simp
      qed
    next
      case False
      then show ?thesis
        using nc "2.prems" read_record_never_parsed [of x l ls]
        by (auto split: parsed.splits)
    qed
  qed
qed

lemma load_returns_store:
  assumes "wget_hpkp_db_load x clock fs filename (Some db) = Returns (r, db')"
  shows "db' = Some db"
  using assms load_loop_returns_store [of x clock _ "load_start db"]
  by (auto simp: wget_hpkp_db_load_def load_result_def load_start_def
      split: option.splits if_splits outcome.splits)

lemma fopen_r_file_at: "fopen_r (file_at path ls) path = Some (unlines ls)"
  by (simp add: fopen_r_def open_target_def file_at_def)

subsection \<open>Rejected records\<close>

text \<open>
  A file of three records, as save writes them, for a store that holds \<open>demo_db\<close>:
  exclusive admission of the three candidates, at the clock values of a load, returns
  ENTRY_EXPIRED, NOT_ENOUGH_PINS and ENTRY_EXISTS.
\<close>

lemma rejected_file_candidates:
  "fst (uu_wget_hpkp_db_add (demo_clock 0) demo_db old_entry True) = WGET_HPKP_ENTRY_EXPIRED \<and>
   fst (uu_wget_hpkp_db_add (demo_clock 1) demo_db single_pin_entry True) = WGET_HPKP_NOT_ENOUGH_PINS \<and>
   fst (uu_wget_hpkp_db_add (demo_clock 2) demo_db entry_1 True) = WGET_HPKP_ENTRY_EXISTS"
  by code_simp

text \<open>
  C3. The claim: during a load, a well-formed record whose exclusive admission returns
  ENTRY_EXPIRED, NOT_ENOUGH_PINS or ENTRY_EXISTS is discarded, its candidate is
  destroyed, parsing continues with the next record, and a load that meets only such
  records returns OK. The \<^verbatim>\<open>switch\<close> of \<^verbatim>\<open>wget_hpkp_db_load\<close> is written to do that, but
  the loader does not reach it in a defined state: the host line of every well-formed
  record makes the 8-byte store into the 4-byte \<^verbatim>\<open>num_pins\<close>. Evaluated for the file of
  the three rejected records (\<open>rejected_file\<close>, lemma \<open>rejected_file_candidates\<close>) and
  the store \<open>demo_db\<close>: the load has no defined result.
\<close>

theorem rejected_records_load_undefined:
  "wget_hpkp_db_load demo_ext demo_clock (file_at ''/tmp/hpkp'' rejected_file)
     (Some ''/tmp/hpkp'') (Some demo_db) = Undefined_behaviour"
proof -
  have l: "load_loop demo_ext demo_clock (file_lines (unlines rejected_file)) (load_start demo_db) =
           Undefined_behaviour"
    by code_simp
  show ?thesis
    by (simp add: wget_hpkp_db_load_def fopen_r_file_at l)
qed

subsection \<open>Format errors\<close>

text \<open>
  A record that does not parse ends the loop with \<^verbatim>\<open>retval = WGET_HPKP_ERROR\<close>. When it
  is the first record of the file, no host line has been parsed before it, and the load
  returns ERROR with the store it was given.
\<close>

lemma load_loop_malformed:
  assumes "version s \<noteq> 0" "\<not> is_comment_line l" "read_record x l ls = Malformed"
  shows "load_loop x clock (l # ls) s = Returns (s\<lparr>retval := status_code WGET_HPKP_ERROR\<rparr>)"
  using assms by simp

lemma malformed_first_record:
  "wget_hpkp_db_load demo_ext demo_clock (file_at ''/tmp/hpkp'' (header_lines @ [bad_line]))
     (Some ''/tmp/hpkp'') (Some demo_db) = Returns (status_code WGET_HPKP_ERROR, Some demo_db)"
proof -
  have l: "load_loop demo_ext demo_clock (file_lines (unlines (header_lines @ [bad_line]))) (load_start demo_db) =
           Returns \<lparr>lv_db = demo_db, retval = status_code WGET_HPKP_ERROR, version = 1, time_calls = 0\<rparr>"
    by code_simp
  show ?thesis
    by (simp add: wget_hpkp_db_load_def fopen_r_file_at l load_result_def)
qed

text \<open>
  A file of two records: the record of \<open>entry_1\<close> as save writes it, which the empty
  store would admit, and a line whose \<^verbatim>\<open>created\<close> field is \<^verbatim>\<open>12x4\<close>.
\<close>

lemma broken_file_first_record:
  "fst (uu_wget_hpkp_db_add (demo_clock 0) wget_hpkp_db_init entry_1 True) = WGET_HPKP_OK"
  by code_simp

text \<open>
  C9. The claim: when the first \<open>k\<close> records of a file are well-formed and admitted and
  the next one is malformed, the load returns ERROR and the store keeps the entries of
  the first \<open>k\<close> records. The error exits of the loop are written to do that, but for
  \<open>k > 0\<close> the loader has overrun \<^verbatim>\<open>num_pins\<close> on the host line of the first record
  before it meets the malformed one. Evaluated for the header, the record of \<open>entry_1\<close>
  and the malformed line (\<open>broken_file\<close>), loaded into the empty store: the last line
  does not parse, and the load has no defined result.
\<close>

theorem broken_file_load_undefined:
  "read_record demo_ext bad_line [] = Malformed \<and>
   wget_hpkp_db_load demo_ext demo_clock (file_at ''/tmp/hpkp'' broken_file)
     (Some ''/tmp/hpkp'') (Some wget_hpkp_db_init) = Undefined_behaviour"
proof -
  have a: "read_record demo_ext bad_line [] = Malformed"
    by code_simp
  have l: "load_loop demo_ext demo_clock (file_lines (unlines broken_file)) (load_start wget_hpkp_db_init) =
           Undefined_behaviour"
    by code_simp
  show ?thesis
    using a by (simp add: wget_hpkp_db_load_def fopen_r_file_at l)
qed

subsection \<open>Duplicate records\<close>

text \<open>
  The records of \<open>entry_1\<close> and of \<open>rival_entry\<close>, two records for one host, loaded into
  the empty store: the load ends on the first host line as well.
\<close>

lemma duplicate_file_load_undefined:
  "wget_hpkp_db_load demo_ext demo_clock (file_at ''/tmp/hpkp'' duplicate_file)
     (Some ''/tmp/hpkp'') (Some wget_hpkp_db_init) = Undefined_behaviour"
proof -
  have l: "load_loop demo_ext demo_clock (file_lines (unlines duplicate_file)) (load_start wget_hpkp_db_init) =
           Undefined_behaviour"
    by code_simp
  show ?thesis
    by (simp add: wget_hpkp_db_load_def fopen_r_file_at l)
qed

section \<open>Saving to a path that is not a file\<close>

lemma save_special_target:
  assumes "fname \<noteq> []" "stat fs fname = Some S_IFOTHER"
  shows "wget_hpkp_db_save x fs (Some fname) (Some db) = (0, fs)"
  using assms by (simp add: wget_hpkp_db_save_def)

text \<open>
  C7. The claim: when the target path exists and is neither a regular file nor a symbolic
  link, save returns a generic error and writes and deletes nothing. The source prints
  an error and jumps to \<^verbatim>\<open>end:\<close>, which returns \<^verbatim>\<open>bctx.written_pins\<close>: the call leaves the
  file system as it is, but it returns 0, the value of a save that wrote no pin, and not
  \<^verbatim>\<open>WGET_HPKP_ERROR\<close>. Evaluated for a store of two entries and a path that is a directory:
\<close>

theorem save_to_directory_returns_zero:
  "stat (dir_at ''/tmp/hpkp'') ''/tmp/hpkp'' = Some S_IFOTHER \<and>
   wget_hpkp_db_save demo_ext (dir_at ''/tmp/hpkp'') (Some ''/tmp/hpkp'') (Some demo_db) =
     (0, dir_at ''/tmp/hpkp'') \<and>
   status_code WGET_HPKP_ERROR < 0"
proof -
  have s: "stat (dir_at ''/tmp/hpkp'') ''/tmp/hpkp'' = Some S_IFOTHER"
    by (simp add: stat_def dir_at_def)
  have e: "''/tmp/hpkp'' \<noteq> []" by simp
  show ?thesis using s save_special_target [OF e s] by simp
qed

end
